theory Spec2Isabelle
  imports Complex_Main "HOL-Library.Sublist"
begin

section \<open>Python text primitives used by \<open>app/ags.py\<close>\<close>

text \<open>
  Text is modelled as \<open>string\<close>, a list of 8-bit characters.  Under ISO-8859-1 every byte of a
  file decodes to the character with the same code, so the bytes of a file and their permissive
  decoding are the same list.  Captured process output and log text are restricted to the same
  256 code points.
\<close>

abbreviation LF :: char where "LF \<equiv> CHR 0x0A"
abbreviation CR :: char where "CR \<equiv> CHR 0x0D"
abbreviation TAB :: char where "TAB \<equiv> CHR 0x09"

text \<open>\<open>sub in s\<close> on strings.\<close>

fun py_in :: "string \<Rightarrow> string \<Rightarrow> bool" where
  "py_in sub [] = (sub = [])"
| "py_in sub (c # cs) = (prefix sub (c # cs) \<or> py_in sub cs)"

text \<open>\<open>s.startswith(p)\<close>.\<close>

definition startswith :: "string \<Rightarrow> string \<Rightarrow> bool" where
  "startswith s p = prefix p s"

text \<open>\<open>s.count('\n')\<close>.\<close>

definition count_newlines :: "string \<Rightarrow> nat" where
  "count_newlines s = length (filter (\<lambda>c. c = LF) s)"

text \<open>\<open>s.split('\n')\<close>: the pieces between newlines, never an empty list.\<close>

fun split_newline :: "string \<Rightarrow> string list" where
  "split_newline [] = [[]]"
| "split_newline (c # cs) =
     (if c = LF then [] # split_newline cs
      else (case split_newline cs of
              [] \<Rightarrow> [[c]]
            | piece # pieces \<Rightarrow> (c # piece) # pieces))"

text \<open>The class \<open>\d\<close> of the \<open>re\<close> module, on 8-bit characters: the ten ASCII digits.\<close>

definition isdigit :: "char \<Rightarrow> bool" where
  "isdigit c = (c \<in> set ''0123456789'')"

text \<open>\<open>int(s)\<close> on a string of digits, and \<open>str(n)\<close> on a non-negative integer.\<close>

definition digit_value :: "char \<Rightarrow> nat" where
  "digit_value c = of_char c - 48"

definition int_of_digits :: "string \<Rightarrow> nat" where
  "int_of_digits ds = foldl (\<lambda>acc c. 10 * acc + digit_value c) 0 ds"

definition digit_char :: "nat \<Rightarrow> char" where
  "digit_char d = char_of (48 + d)"

fun str_of_nat :: "nat \<Rightarrow> string" where
  "str_of_nat n =
     (if n < 10 then [digit_char n] else str_of_nat (n div 10) @ [digit_char (n mod 10)])"

declare str_of_nat.simps [simp del]

section \<open>Errors\<close>

text \<open>The exceptions that the functions of \<open>app/ags.py\<close> can raise on the inputs modelled.\<close>

datatype error = TypeError | AttributeError | UnboundLocalError | OverflowError

section \<open>Reading the input file in text mode\<close>

text \<open>
  \<open>open(filename, encoding='ISO-8859-1')\<close> opens the file in text mode with the default
  \<open>newline=None\<close>: universal newlines.  On input the line endings \<open>\r\n\<close> and \<open>\r\<close> are
  translated to \<open>\n\<close> before the text reaches the caller, and \<open>f.read(n)\<close> counts characters
  of the translated text.
\<close>

fun universal_newlines :: "string \<Rightarrow> string" where
  "universal_newlines [] = []"
| "universal_newlines [c] = [if c = CR then LF else c]"
| "universal_newlines (c # d # cs) =
     (if c = CR \<and> d = LF then LF # universal_newlines cs
      else (if c = CR then LF else c) # universal_newlines (d # cs))"

text \<open>
  An open text file is the text not yet read.  \<open>f.read(size)\<close> returns at most \<open>size\<close>
  characters and advances; a negative size reads to the end.  The size is converted to a
  signed 64-bit integer first, and one that does not fit raises \<open>OverflowError\<close>.
\<close>

definition open_text :: "string \<Rightarrow> string" where
  "open_text file_bytes = universal_newlines file_bytes"

definition f_read :: "int \<Rightarrow> string \<Rightarrow> error + (string \<times> string)" where
  "f_read n f =
     (if n < - (2 ^ 63) \<or> 2 ^ 63 \<le> n then Inl OverflowError
      else if n < 0 then Inr (f, [])
      else Inr (take (nat n) f, drop (nat n) f))"

section \<open>The encoding-error locator\<close>

text \<open>
  \<open>line_of_error(filename, char_no)\<close>; the file at \<open>filename\<close> is given by its bytes.
  Returns \<open>(char_no, line_no, line, char)\<close>, or the exception of a \<open>read\<close>; \<open>upto_text\<close> is
  the source's \<open>upto\<close>.
\<close>

definition line_of_error :: "string \<Rightarrow> int \<Rightarrow> error + (nat \<times> nat \<times> string \<times> string)" where
  "line_of_error file_bytes char_no =
     (let f = open_text file_bytes
      in case f_read char_no f of
           Inl e \<Rightarrow> Inl e
         | Inr (upto_text, f') \<Rightarrow>
             (let line_no = count_newlines upto_text + 1;
                  line = last (split_newline upto_text);
                  char_no' = length line + 1
              in case f_read 1 f' of
                   Inl e \<Rightarrow> Inl e
                 | Inr (char, f'') \<Rightarrow> Inr (char_no', line_no, line, char)))"

section \<open>The two regular expressions\<close>

text \<open>
  \<open>re.match(r'\d+ error\(s\) found in file', log)\<close>: anchored at the start, one or more
  digits taken greedily, then the literal text.  The literal starts with a space, so giving
  back digits cannot help and the greedy choice decides.
\<close>

definition re_match_error_count :: "string \<Rightarrow> bool" where
  "re_match_error_count s =
     (takeWhile isdigit s \<noteq> [] \<and>
      prefix '' error(s) found in file'' (dropWhile isdigit s))"

text \<open>
  \<open>re.search(r'.*in position (\d+):.*', stderr)\<close>, as the backtracking matcher runs it.
  \<open>digits_colon\<close> is \<open>(\d+):.*\<close> at a position (the final \<open>.*\<close> always matches);
  \<open>position_here\<close> is \<open>in position (\d+):.*\<close> at a position; \<open>dot_star_position\<close> is the
  whole pattern at a start position: the greedy \<open>.*\<close> takes a character other than newline
  when it can, and gives it back when the rest fails; \<open>re_search_position\<close> tries the start
  positions from left to right.  The result is \<open>int(m.group(1))\<close>, or \<open>None\<close> for no match.
\<close>

definition digits_colon :: "string \<Rightarrow> nat option" where
  "digits_colon s =
     (let ds = takeWhile isdigit s
      in if ds \<noteq> [] \<and> prefix '':'' (dropWhile isdigit s)
         then Some (int_of_digits ds) else None)"

definition position_here :: "string \<Rightarrow> nat option" where
  "position_here s =
     (if prefix ''in position '' s then digits_colon (drop 12 s) else None)"

fun dot_star_position :: "string \<Rightarrow> nat option" where
  "dot_star_position [] = position_here []"
| "dot_star_position (c # cs) =
     (if c = LF then position_here (c # cs)
      else (case dot_star_position cs of
              Some k \<Rightarrow> Some k
            | None \<Rightarrow> position_here (c # cs)))"

fun re_search_position :: "string \<Rightarrow> nat option" where
  "re_search_position [] = dot_star_position []"
| "re_search_position (c # cs) =
     (case dot_star_position (c # cs) of
        Some k \<Rightarrow> Some k
      | None \<Rightarrow> re_search_position cs)"

section \<open>Process results\<close>

record completed_process =
  returncode :: int
  stdout :: string
  stderr :: string

text \<open>
  \<open>get_unicode_message(stderr, filename)\<close>.  With no match \<open>m\<close> is \<open>None\<close> and
  \<open>m.group(1)\<close> raises \<open>AttributeError\<close>; an exception of the locator passes through.
  (The limit that newer interpreters put on the number of digits \<open>int\<close> converts is a
  setting of the interpreter and is not part of this function.)
\<close>

definition get_unicode_message :: "string \<Rightarrow> string \<Rightarrow> error + string" where
  "get_unicode_message err file_bytes =
     (case re_search_position err of
        None \<Rightarrow> Inl AttributeError
      | Some k \<Rightarrow>
          (case line_of_error file_bytes (int k) of
             Inl e \<Rightarrow> Inl e
           | Inr (char_no, line_no, line, char) \<Rightarrow>
               Inr (''ERROR: Unreadable character \"'' @ char @ ''\" at position ''
                    @ str_of_nat char_no @ '' on line: '' @ str_of_nat line_no
                    @ [LF] @ ''Starting: '' @ line @ [LF, LF])))"

section \<open>Paths\<close>

text \<open>
  A \<open>pathlib.Path\<close> is the list of its parts.  \<open>name\<close> is the last part; \<open>suffix\<close> and
  \<open>stem\<close> cut the name at its last dot, unless that dot is the first or the last character.
\<close>

type_synonym path = "string list"

definition path_name :: "path \<Rightarrow> string" where
  "path_name p = (if p = [] then [] else last p)"

text \<open>\<open>name.rfind('.')\<close>: the index of the last dot, or \<open>None\<close> for Python's \<open>-1\<close>.\<close>

fun rfind_dot :: "string \<Rightarrow> nat option" where
  "rfind_dot [] = None"
| "rfind_dot (c # cs) =
     (case rfind_dot cs of
        Some i \<Rightarrow> Some (Suc i)
      | None \<Rightarrow> if c = CHR ''.'' then Some 0 else None)"

definition suffix_of :: "path \<Rightarrow> string" where
  "suffix_of p =
     (let name = path_name p
      in case rfind_dot name of
           None \<Rightarrow> []
         | Some i \<Rightarrow> if 0 < i \<and> i < length name - 1 then drop i name else [])"

definition stem :: "path \<Rightarrow> string" where
  "stem p =
     (let name = path_name p
      in case rfind_dot name of
           None \<Rightarrow> name
         | Some i \<Rightarrow> if 0 < i \<and> i < length name - 1 then take i name else name)"

text \<open>\<open>directory / part\<close>, for a part without separators.\<close>

definition joinpath :: "path \<Rightarrow> string \<Rightarrow> path" where
  "joinpath d part = d @ [part]"

section \<open>The report template\<close>

text \<open>
  \<open>filesize = filename.stat().st_size / 1024\<close> is a true division of integers: the result is
  the double nearest to the quotient.  Dividing by a power of two only shifts the exponent, so
  it is the double nearest to \<open>st_size\<close>, over 1024.  \<open>float_of_nat\<close> rounds a size to 53
  significant bits, ties to even; sizes below \<open>2 ^ 53\<close> are kept as they are.  (A file
  size is a signed 64-bit offset, far below the sizes whose quotient no longer fits a float.)
\<close>

fun bit_length :: "nat \<Rightarrow> nat" where
  "bit_length n = (if n = 0 then 0 else Suc (bit_length (n div 2)))"

declare bit_length.simps [simp del]

definition float_of_nat :: "nat \<Rightarrow> nat" where
  "float_of_nat n =
     (if bit_length n \<le> 53 then n
      else (let e = bit_length n - 53;
                q = n div 2 ^ e;
                r = n mod 2 ^ e;
                h = 2 ^ (e - 1)
            in (if r < h \<or> (r = h \<and> even q) then q else q + 1) * 2 ^ e))"

definition py_truediv_1024 :: "nat \<Rightarrow> rat" where
  "py_truediv_1024 n = of_nat (float_of_nat n) / 1024"

text \<open>
  The format specification \<open>0.0f\<close>: fixed point with no digit after the point and no point,
  the value rounded to the nearest whole number, a tie to the even one.
\<close>

definition round_half_even :: "rat \<Rightarrow> int" where
  "round_half_even x =
     (let f = \<lfloor>x\<rfloor>; d = x - of_int f
      in if d < 1 / 2 then f
         else if 1 / 2 < d then f + 1
         else if even f then f else f + 1)"

definition format_0f :: "rat \<Rightarrow> string" where
  "format_0f x =
     (if x < 0 then ''-'' else []) @ str_of_nat (nat (round_half_even \<bar>x\<bar>))"

text \<open>
  The clock: \<open>datetime.now(tz=timezone.utc)\<close> is a parameter, a record of its fields, and
  \<open>strftime('%Y-%m-%d %H:%M:%S')\<close> writes the year in decimal, as the C library under Linux
  does for \<open>%Y\<close> (no padding), and each other field in decimal padded with zeros to two
  digits.
\<close>

record datetime =
  year :: nat
  month :: nat
  day :: nat
  hour :: nat
  minute :: nat
  second :: nat

text \<open>
  A reading of the clock: the ranges of the fields that the \<open>datetime\<close> constructor
  enforces, with the year from 1000 on.  The clock returns no earlier year, and from 1000 on
  \<open>%Y\<close> is four digits on every platform.
\<close>

definition datetime_ok :: "datetime \<Rightarrow> bool" where
  "datetime_ok t =
     (1000 \<le> year t \<and> year t \<le> 9999 \<and> 1 \<le> month t \<and> month t \<le> 12 \<and>
      1 \<le> day t \<and> day t \<le> 31 \<and> hour t < 24 \<and> minute t < 60 \<and> second t < 60)"

definition zfill :: "nat \<Rightarrow> string \<Rightarrow> string" where
  "zfill w s = replicate (w - length s) CHR ''0'' @ s"

definition strftime :: "datetime \<Rightarrow> string" where
  "strftime t =
     str_of_nat (year t) @ ''-'' @ zfill 2 (str_of_nat (month t)) @ ''-''
     @ zfill 2 (str_of_nat (day t)) @ '' '' @ zfill 2 (str_of_nat (hour t)) @ '':''
     @ zfill 2 (str_of_nat (minute t)) @ '':'' @ zfill 2 (str_of_nat (second t))"

text \<open>
  \<open>RESPONSE_TEMPLATE.format(filename=..., filesize=..., time_utc=..., message=...)\<close>.  After
  \<open>dedent\<close> and \<open>strip\<close> the template is four lines with one empty line before the message;
  \<open>\t\<close> in the literal is a tab character between two spaces.
\<close>

definition RESPONSE_TEMPLATE :: "string \<Rightarrow> rat \<Rightarrow> string \<Rightarrow> string \<Rightarrow> string" where
  "RESPONSE_TEMPLATE filename filesize time_utc message =
     ''File Name: '' @ [TAB] @ '' '' @ filename @ [LF]
     @ ''File Size: '' @ [TAB] @ '' '' @ format_0f filesize @ '' kB'' @ [LF]
     @ ''Time (UTC): '' @ [TAB] @ '' '' @ time_utc @ [LF]
     @ [LF]
     @ message"

section \<open>The validator\<close>

text \<open>
  \<open>validate(filename)\<close> after the checking tool has returned.  The parameters are what the
  function reads from its environment: the path, the bytes of the file at that path (its size
  is their number), the clock, the \<open>CompletedProcess\<close> and \<open>log\<close> (here \<open>log_contents\<close>), \<open>None\<close>
  when the tool wrote no log file.  \<open>classify\<close> is the \<open>if\<close>/\<open>elif\<close> chain that sets \<open>use_template\<close> and
  \<open>message\<close>; the last branch leaves \<open>message\<close> unbound.  \<open>re.match\<close> on \<open>None\<close> raises
  \<open>TypeError\<close>.  The value returned is \<open>response\<close>, a string or the \<open>None\<close> of \<open>log\<close>.
  The input file is taken to exist and the tool to have returned in time: a missing file and
  a timeout are failures of the environment, not branches of this function.
\<close>

definition classify :: "string \<Rightarrow> completed_process \<Rightarrow> string option
                         \<Rightarrow> error + (bool \<times> string option)" where
  "classify file_bytes result log_contents =
     (if returncode result \<noteq> 0 then
        (if py_in ''UnicodeDecodeError:'' (stderr result) then
           (case get_unicode_message (stderr result) file_bytes of
              Inl e \<Rightarrow> Inl e
            | Inr message \<Rightarrow> Inr (True, Some message))
         else Inr (True, Some (''ERROR: '' @ stderr result)))
      else if startswith (stdout result) ''ERROR: '' then
        Inr (True, Some (stdout result))
      else
        (case log_contents of
           None \<Rightarrow> Inl TypeError
         | Some l \<Rightarrow>
             if re_match_error_count l then Inr (True, Some l)
             else Inr (False, None)))"

definition validate :: "path \<Rightarrow> string \<Rightarrow> datetime \<Rightarrow> completed_process \<Rightarrow> string option
                         \<Rightarrow> error + string option" where
  "validate filename file_bytes now result log_contents =
     (let filesize = py_truediv_1024 (length file_bytes);
          time_utc = strftime now
      in case classify file_bytes result log_contents of
           Inl e \<Rightarrow> Inl e
         | Inr (use_template, message) \<Rightarrow>
             if use_template then
               (case message of
                  None \<Rightarrow> Inl UnboundLocalError
                | Some m \<Rightarrow>
                    Inr (Some (RESPONSE_TEMPLATE (path_name filename) filesize time_utc m)))
             else Inr log_contents)"

text \<open>\<open>log_is_valid(log)\<close>.\<close>

definition log_is_valid :: "string \<Rightarrow> bool" where
  "log_is_valid report = py_in ''All checks passed!'' report"

section \<open>The converter\<close>

text \<open>
  \<open>convert(filename, results_dir)\<close> after the conversion tool has returned.  \<open>st_size\<close> is the
  size of the input file and \<open>files\<close> the set of paths that exist at that moment (the
  results directory is created before the tool runs);
  \<open>unlink(missing_ok=True)\<close> removes a path from it and accepts an absent one.  The result is
  the returned pair and the paths left.
\<close>

definition new_extension :: "path \<Rightarrow> string" where
  "new_extension filename = (if suffix_of filename = ''.xlsx'' then ''.ags'' else ''.xlsx'')"

definition unlink :: "path \<Rightarrow> path set \<Rightarrow> path set" where
  "unlink p files = files - {p}"

definition convert :: "path \<Rightarrow> nat \<Rightarrow> path \<Rightarrow> datetime \<Rightarrow> completed_process \<Rightarrow> path set
                        \<Rightarrow> (path option \<times> string) \<times> path set" where
  "convert filename st_size results_dir now result files =
     (let converted_file = joinpath results_dir (stem filename @ new_extension filename);
          filesize = py_truediv_1024 st_size;
          time_utc = strftime now;
          (message, converted, files') =
            (if returncode result \<noteq> 0 then
               (''ERROR: '' @ stderr result, None, unlink converted_file files)
             else if startswith (stdout result) ''ERROR: '' then
               (stdout result, None, unlink converted_file files)
             else
               (''SUCCESS: '' @ path_name filename @ '' converted to ''
                  @ path_name converted_file,
                Some converted_file, files));
          report = RESPONSE_TEMPLATE (path_name filename) filesize time_utc message
      in ((converted, report), files'))"

section \<open>Facts about the text primitives\<close>

lemma py_in_iff: "py_in sub s \<longleftrightarrow> (\<exists>pre post. s = pre @ sub @ post)"
proof (induction s)
  case Nil
  then show ?case by auto
next
  case (Cons c cs)
  show ?case
  proof
    assume "py_in sub (c # cs)"
    then consider "prefix sub (c # cs)" | "py_in sub cs" by auto
    then show "\<exists>pre post. c # cs = pre @ sub @ post"
    proof cases
      case 1
      then obtain post where "c # cs = sub @ post" by (auto simp: prefix_def)
      then have "c # cs = [] @ sub @ post" by simp
      then show ?thesis by blast
    next
      case 2
      with Cons.IH obtain pre post where "cs = pre @ sub @ post" by blast
      then have "c # cs = (c # pre) @ sub @ post" by simp
      then show ?thesis by blast
    qed
  next
    assume "\<exists>pre post. c # cs = pre @ sub @ post"
    then obtain pre post where eq: "c # cs = pre @ sub @ post" by blast
    show "py_in sub (c # cs)"
    proof (cases pre)
      case Nil
      with eq have "prefix sub (c # cs)" by (simp add: prefix_def)
      then show ?thesis by simp
    next
      case (Cons p pre')
      with eq have "cs = pre' @ sub @ post" by simp
      with Cons.IH have "py_in sub cs" by blast
      then show ?thesis by simp
    qed
  qed
qed

lemma split_newline_nonempty: "split_newline s \<noteq> []"
  by (induction s) (simp_all split: list.split)

lemma length_split_newline: "length (split_newline s) = Suc (count_newlines s)"
  by (induction s) (auto simp: count_newlines_def split_newline_nonempty split: list.split)

lemma split_newline_single: "LF \<notin> set l \<Longrightarrow> split_newline l = [l]"
  by (induction l) auto

lemma last_split_newline_Cons:
  "last (split_newline (c # cs)) =
     (if LF \<in> set cs then last (split_newline cs) else if c = LF then cs else c # cs)"
proof (cases "LF \<in> set cs")
  case True
  then have "0 < count_newlines cs"
    by (simp add: count_newlines_def filter_empty_conv)
  then have "2 \<le> length (split_newline cs)"
    by (simp add: length_split_newline)
  then obtain piece p2 pieces where "split_newline cs = piece # p2 # pieces"
    by (cases "split_newline cs"; cases "tl (split_newline cs)") auto
  with True show ?thesis by simp
next
  case False
  then show ?thesis by (simp add: split_newline_single)
qed

text \<open>The last piece of \<open>split('\n')\<close> is what follows the last newline.\<close>

lemma last_split_newline:
  "last (split_newline s) = rev (takeWhile (\<lambda>c. c \<noteq> LF) (rev s))"
proof (induction s)
  case Nil
  show ?case by simp
next
  case (Cons c cs)
  show ?case
  proof (cases "LF \<in> set cs")
    case True
    then have "takeWhile (\<lambda>c. c \<noteq> LF) (rev cs @ [c]) = takeWhile (\<lambda>c. c \<noteq> LF) (rev cs)"
      by (intro takeWhile_append1 [where x = LF]) simp_all
    with True Cons.IH show ?thesis
      by (simp only: last_split_newline_Cons rev.simps if_True)
  next
    case False
    then have "takeWhile (\<lambda>c. c \<noteq> LF) (rev cs @ [c]) = rev cs @ takeWhile (\<lambda>c. c \<noteq> LF) [c]"
      by (intro takeWhile_append2) auto
    with False show ?thesis
      by (simp add: last_split_newline_Cons del: split_newline.simps)
  qed
qed

text \<open>A file without carriage returns is read as it is.\<close>

lemma universal_newlines_id: "CR \<notin> set s \<Longrightarrow> universal_newlines s = s"
  by (induction s rule: universal_newlines.induct) auto

section \<open>Facts about the position pattern\<close>

lemma not_isdigit_colon: "\<not> isdigit CHR '':''"
  by (simp add: isdigit_def)

lemma digits_colon_Some:
  assumes "digits_colon s = Some k"
  shows "\<exists>ds post. s = ds @ '':'' @ post \<and> ds \<noteq> [] \<and> (\<forall>c\<in>set ds. isdigit c) \<and> k = int_of_digits ds"
proof -
  let ?ds = "takeWhile isdigit s"
  from assms have ne: "?ds \<noteq> []" and pre: "prefix '':'' (dropWhile isdigit s)" and k: "k = int_of_digits ?ds"
    by (auto simp: digits_colon_def Let_def split: if_splits)
  from pre obtain post where "dropWhile isdigit s = '':'' @ post" by (auto simp: prefix_def)
  then have "s = ?ds @ '':'' @ post"
    using takeWhile_dropWhile_id [of isdigit s] by simp
  moreover have "\<forall>c\<in>set ?ds. isdigit c" by (auto dest: set_takeWhileD)
  ultimately show ?thesis using ne k by blast
qed

lemma digits_colon_decomp:
  assumes "ds \<noteq> []" "\<forall>c\<in>set ds. isdigit c"
  shows "digits_colon (ds @ '':'' @ post) = Some (int_of_digits ds)"
proof -
  have tw: "takeWhile isdigit (ds @ '':'' @ post) = ds"
    using assms(2) by (simp add: takeWhile_append2 not_isdigit_colon)
  have dw: "dropWhile isdigit (ds @ '':'' @ post) = '':'' @ post"
    using assms(2) by (simp add: dropWhile_append2 not_isdigit_colon)
  show ?thesis
    unfolding digits_colon_def Let_def tw dw using assms(1) by (simp add: prefix_def)
qed

lemma position_here_Some:
  assumes "position_here s = Some k"
  shows "\<exists>ds post. s = ''in position '' @ ds @ '':'' @ post \<and> ds \<noteq> [] \<and> (\<forall>c\<in>set ds. isdigit c) \<and> k = int_of_digits ds"
proof -
  from assms have pre: "prefix ''in position '' s" and dc: "digits_colon (drop 12 s) = Some k"
    by (auto simp: position_here_def split: if_splits)
  from pre obtain rest where s: "s = ''in position '' @ rest" by (auto simp: prefix_def)
  then have "drop 12 s = rest" by simp
  with dc digits_colon_Some obtain ds post where
    "rest = ds @ '':'' @ post" "ds \<noteq> []" "\<forall>c\<in>set ds. isdigit c" "k = int_of_digits ds"
    by metis
  with s show ?thesis by blast
qed

lemma position_here_decomp:
  assumes "ds \<noteq> []" "\<forall>c\<in>set ds. isdigit c"
  shows "position_here (''in position '' @ ds @ '':'' @ post) = Some (int_of_digits ds)"
proof -
  have "drop 12 (''in position '' @ ds @ '':'' @ post) = ds @ '':'' @ post" by simp
  moreover have "prefix ''in position '' (''in position '' @ ds @ '':'' @ post)"
    by (simp add: prefix_def)
  ultimately show ?thesis
    unfolding position_here_def using digits_colon_decomp [OF assms] by simp
qed

lemma dot_star_position_Some:
  "dot_star_position s = Some k \<Longrightarrow> \<exists>pre suf. s = pre @ suf \<and> position_here suf = Some k"
proof (induction s)
  case Nil
  then show ?case by simp
next
  case (Cons c cs)
  show ?case
  proof (cases "c \<noteq> LF \<and> dot_star_position cs \<noteq> None")
    case True
    with Cons.prems have "dot_star_position cs = Some k" by auto
    with Cons.IH obtain pre suf where "cs = pre @ suf" "position_here suf = Some k" by blast
    then have "c # cs = (c # pre) @ suf" by simp
    with \<open>position_here suf = Some k\<close> show ?thesis by blast
  next
    case False
    with Cons.prems have "position_here (c # cs) = Some k" by (auto split: option.splits)
    then have "c # cs = [] @ (c # cs) \<and> position_here (c # cs) = Some k" by simp
    then show ?thesis by blast
  qed
qed

lemma dot_star_position_here: "position_here s \<noteq> None \<Longrightarrow> dot_star_position s \<noteq> None"
  by (cases s) (auto split: option.splits)

lemma re_search_position_Some:
  "re_search_position s = Some k \<Longrightarrow> \<exists>pre suf. s = pre @ suf \<and> position_here suf = Some k"
proof (induction s)
  case Nil
  then show ?case by simp
next
  case (Cons c cs)
  show ?case
  proof (cases "dot_star_position (c # cs)")
    case None
    with Cons.prems have "re_search_position cs = Some k" by simp
    with Cons.IH obtain pre suf where "cs = pre @ suf" "position_here suf = Some k" by blast
    then have "c # cs = (c # pre) @ suf" by simp
    with \<open>position_here suf = Some k\<close> show ?thesis by blast
  next
    case (Some k')
    with Cons.prems have "dot_star_position (c # cs) = Some k" by simp
    then show ?thesis by (rule dot_star_position_Some)
  qed
qed

lemma re_search_position_complete:
  "position_here suf \<noteq> None \<Longrightarrow> re_search_position (pre @ suf) \<noteq> None"
proof (induction pre)
  case Nil
  then have "dot_star_position suf \<noteq> None" by (rule dot_star_position_here)
  then show ?case by (cases suf) (auto split: option.splits)
next
  case (Cons c pre)
  then show ?case by (auto split: option.splits)
qed

text \<open>
  The search finds a match exactly when the text contains \<open>in position\<close>, a space, one or
  more digits and a colon.
\<close>

lemma re_search_position_None_iff:
  "re_search_position s = None \<longleftrightarrow>
     \<not> (\<exists>pre ds post. s = pre @ ''in position '' @ ds @ '':'' @ post \<and> ds \<noteq> [] \<and>
          (\<forall>c\<in>set ds. isdigit c))"
  (is "_ \<longleftrightarrow> \<not> ?has")
proof
  assume none: "re_search_position s = None"
  show "\<not> ?has"
  proof
    assume "?has"
    then obtain pre ds post where
      s: "s = pre @ ''in position '' @ ds @ '':'' @ post" and ds: "ds \<noteq> []" "\<forall>c\<in>set ds. isdigit c"
      by blast
    have "position_here (''in position '' @ ds @ '':'' @ post) \<noteq> None"
      using position_here_decomp [OF ds] by simp
    then have "re_search_position (pre @ ''in position '' @ ds @ '':'' @ post) \<noteq> None"
      by (rule re_search_position_complete)
    with s none show False by simp
  qed
next
  assume no: "\<not> ?has"
  show "re_search_position s = None"
  proof (rule ccontr)
    assume "re_search_position s \<noteq> None"
    then obtain k where "re_search_position s = Some k" by auto
    then obtain pre suf where s: "s = pre @ suf" and "position_here suf = Some k"
      using re_search_position_Some by blast
    then obtain ds post where "suf = ''in position '' @ ds @ '':'' @ post" "ds \<noteq> []" "\<forall>c\<in>set ds. isdigit c"
      using position_here_Some by blast
    with s have "?has" by blast
    with no show False by contradiction
  qed
qed

lemma re_search_position_Some_decomp:
  assumes "re_search_position s = Some k"
  shows "\<exists>pre ds post. s = pre @ ''in position '' @ ds @ '':'' @ post \<and> ds \<noteq> [] \<and>
           (\<forall>c\<in>set ds. isdigit c) \<and> k = int_of_digits ds"
proof -
  from assms obtain pre suf where s: "s = pre @ suf" and "position_here suf = Some k"
    using re_search_position_Some by blast
  then obtain ds post where
    "suf = ''in position '' @ ds @ '':'' @ post" "ds \<noteq> []" "\<forall>c\<in>set ds. isdigit c"
    "k = int_of_digits ds"
    using position_here_Some by blast
  with s show ?thesis by blast
qed

section \<open>The locator\<close>

text \<open>
  What the locator returns for an offset that fits in 64 bits, in terms of the text as the
  file object delivers it.  A larger offset raises \<open>OverflowError\<close>.
\<close>

lemma f_read_fits:
  "k < 2 ^ 63 \<Longrightarrow> f_read (int k) f = Inr (take k f, drop k f)"
proof -
  assume "k < 2 ^ 63"
  then have "int k < 2 ^ 63" by simp
  moreover have "\<not> int k < - (2 ^ 63)" by simp
  moreover have "\<not> int k < 0" by simp
  ultimately show ?thesis by (simp add: f_read_def)
qed

lemma f_read_one: "f_read 1 f = Inr (take 1 f, drop 1 f)"
  using f_read_fits [of 1 f] by simp

lemma line_of_error_text:
  assumes "k < 2 ^ 63"
  shows "line_of_error file_bytes (int k) =
     Inr (let upto = take k (universal_newlines file_bytes);
              line = rev (takeWhile (\<lambda>c. c \<noteq> LF) (rev upto))
          in (length line + 1, count_newlines upto + 1, line,
              take 1 (drop k (universal_newlines file_bytes))))"
  by (simp add: line_of_error_def open_text_def f_read_fits [OF assms] f_read_one
      last_split_newline Let_def)

lemma line_of_error_overflow:
  assumes "2 ^ 63 \<le> k"
  shows "line_of_error file_bytes (int k) = Inl OverflowError"
proof -
  from assms have "2 ^ 63 \<le> int k" by simp
  then show ?thesis by (simp add: line_of_error_def f_read_def)
qed

lemma line_of_error_0:
  "line_of_error file_bytes 0 = Inr (1, 1, [], take 1 (universal_newlines file_bytes))"
  using line_of_error_text [of 0 file_bytes] by (simp add: count_newlines_def)

text \<open>
  For a file without carriage returns and an offset inside it, the text read is the first
  \<open>k\<close> bytes, the line is what follows their last newline, and the character is the byte at
  the offset.  (The size of a file is below \<open>2 ^ 63\<close>.)
\<close>

lemma line_of_error_without_CR:
  assumes "CR \<notin> set file_bytes" and "k < length file_bytes" and "length file_bytes < 2 ^ 63"
  shows "line_of_error file_bytes (int k) =
     Inr (length (rev (takeWhile (\<lambda>c. c \<noteq> LF) (rev (take k file_bytes)))) + 1,
          count_newlines (take k file_bytes) + 1,
          rev (takeWhile (\<lambda>c. c \<noteq> LF) (rev (take k file_bytes))),
          [file_bytes ! k])"
proof -
  from assms(2) have "take 1 (drop k file_bytes) = [file_bytes ! k]"
    by (simp add: take_Suc_conv_app_nth [of 0] hd_drop_conv_nth take_Suc)
  moreover from assms(2,3) have "k < 2 ^ 63" by simp
  ultimately show ?thesis
    using assms(1) by (simp add: line_of_error_text universal_newlines_id Let_def)
qed

text \<open>
  Claim C3.  The claim is that the locator reads the first \<open>byte_offset\<close> bytes and then the
  byte at the offset.  The file is opened in text mode, where \<open>\r\n\<close> arrives as one
  character and \<open>read\<close> counts characters: in the five bytes \<open>A \r \n B 0xFF\<close>, with the
  undecodable byte at offset 4, the four characters read are \<open>A \n B 0xFF\<close>.  The line
  prefix then holds the byte itself, the column is 3 and the character read next is empty,
  where the first four bytes give the prefix \<open>B\<close>, column 2 and the character \<open>0xFF\<close>.
\<close>

theorem line_of_error_crlf:
  "line_of_error [CHR ''A'', CR, LF, CHR ''B'', CHR 0xFF] 4
     = Inr (3, 2, [CHR ''B'', CHR 0xFF], [])
   \<and> take 4 [CHR ''A'', CR, LF, CHR ''B'', CHR 0xFF] = [CHR ''A'', CR, LF, CHR ''B'']
   \<and> last (split_newline [CHR ''A'', CR, LF, CHR ''B'']) = [CHR ''B'']
   \<and> [CHR ''A'', CR, LF, CHR ''B'', CHR 0xFF] ! 4 = CHR 0xFF"
  by (simp add: line_of_error_def open_text_def f_read_def count_newlines_def)

section \<open>Faults of the validator\<close>

lemma get_unicode_message_no_match:
  "re_search_position err = None \<Longrightarrow> get_unicode_message err file_bytes = Inl AttributeError"
  by (simp add: get_unicode_message_def)

lemma get_unicode_message_overflow:
  "re_search_position err = Some k \<Longrightarrow> 2 ^ 63 \<le> k \<Longrightarrow>
   get_unicode_message err file_bytes = Inl OverflowError"
  by (simp add: get_unicode_message_def line_of_error_overflow)

lemma get_unicode_message_located:
  assumes "re_search_position err = Some k" and "k < 2 ^ 63"
  shows "get_unicode_message err file_bytes =
     Inr (let upto = take k (universal_newlines file_bytes);
              line = rev (takeWhile (\<lambda>c. c \<noteq> LF) (rev upto))
          in ''ERROR: Unreadable character \"'' @ take 1 (drop k (universal_newlines file_bytes))
             @ ''\" at position '' @ str_of_nat (length line + 1)
             @ '' on line: '' @ str_of_nat (count_newlines upto + 1)
             @ [LF] @ ''Starting: '' @ line @ [LF, LF])"
  using assms by (simp add: get_unicode_message_def line_of_error_text Let_def)

text \<open>
  Claim C10.  \<open>get_unicode_message\<close> returns a message only when stderr contains
  \<open>in position\<close>, a space, one or more digits and a colon.  For a non-zero exit code and a
  stderr that contains \<open>UnicodeDecodeError:\<close> but no such text, the search finds no match,
  the group access raises \<open>AttributeError\<close>, and \<open>validate\<close> raises it instead of
  returning a report.
\<close>

theorem get_unicode_message_needs_position:
  "((\<exists>m. get_unicode_message err file_bytes = Inr m) \<longrightarrow>
      (\<exists>pre ds post. err = pre @ ''in position '' @ ds @ '':'' @ post \<and> ds \<noteq> [] \<and>
         (\<forall>c\<in>set ds. isdigit c)))
   \<and> (returncode result \<noteq> 0 \<and> py_in ''UnicodeDecodeError:'' (stderr result) \<and>
        \<not> (\<exists>pre ds post. stderr result = pre @ ''in position '' @ ds @ '':'' @ post \<and>
             ds \<noteq> [] \<and> (\<forall>c\<in>set ds. isdigit c))
      \<longrightarrow> get_unicode_message (stderr result) file_bytes = Inl AttributeError
          \<and> validate filename file_bytes now result log_contents = Inl AttributeError)"
proof (intro conjI impI)
  assume "\<exists>m. get_unicode_message err file_bytes = Inr m"
  then obtain m where m: "get_unicode_message err file_bytes = Inr m" by blast
  have "re_search_position err \<noteq> None"
  proof
    assume "re_search_position err = None"
    then have "get_unicode_message err file_bytes = Inl AttributeError"
      by (rule get_unicode_message_no_match)
    with m show False by simp
  qed
  then obtain k where "re_search_position err = Some k" by auto
  then obtain pre ds post where
    "err = pre @ ''in position '' @ ds @ '':'' @ post" "ds \<noteq> []" "\<forall>c\<in>set ds. isdigit c"
    using re_search_position_Some_decomp by blast
  then show "\<exists>pre ds post. err = pre @ ''in position '' @ ds @ '':'' @ post \<and> ds \<noteq> [] \<and>
         (\<forall>c\<in>set ds. isdigit c)"
    by blast
next
  assume h: "returncode result \<noteq> 0 \<and> py_in ''UnicodeDecodeError:'' (stderr result) \<and>
        \<not> (\<exists>pre ds post. stderr result = pre @ ''in position '' @ ds @ '':'' @ post \<and>
             ds \<noteq> [] \<and> (\<forall>c\<in>set ds. isdigit c))"
  then have none: "re_search_position (stderr result) = None"
    using re_search_position_None_iff [of "stderr result"] by simp
  then show g: "get_unicode_message (stderr result) file_bytes = Inl AttributeError"
    by (rule get_unicode_message_no_match)
  from h g show "validate filename file_bytes now result log_contents = Inl AttributeError"
    by (simp add: validate_def classify_def)
qed

text \<open>
  A decoding error over a range of bytes is reported as \<open>in position 0-1:\<close>, which the
  pattern does not match: here the bytes \<open>E2 82 28\<close>, whose first two start a three-byte
  UTF-8 sequence that the third does not continue.  A decoding error at one byte is reported
  as \<open>in position 0:\<close>, and a message is returned.
\<close>

theorem get_unicode_message_needs_position_witness:
  "returncode \<lparr>returncode = 1, stdout = [],
      stderr = ''UnicodeDecodeError: 'utf-8' codec can't decode bytes in position 0-1: invalid continuation byte''\<rparr> \<noteq> 0
   \<and> py_in ''UnicodeDecodeError:''
        ''UnicodeDecodeError: 'utf-8' codec can't decode bytes in position 0-1: invalid continuation byte''
   \<and> re_search_position
        ''UnicodeDecodeError: 'utf-8' codec can't decode bytes in position 0-1: invalid continuation byte'' = None
   \<and> validate [''tmp'', ''bad.ags''] [CHR 0xE2, CHR 0x82, CHR 0x28]
        \<lparr>year = 2021, month = 8, day = 18, hour = 9, minute = 23, second = 29\<rparr>
        \<lparr>returncode = 1, stdout = [],
         stderr = ''UnicodeDecodeError: 'utf-8' codec can't decode bytes in position 0-1: invalid continuation byte''\<rparr>
        None = Inl AttributeError
   \<and> (\<exists>m. get_unicode_message
          ''UnicodeDecodeError: 'utf-8' codec can't decode byte 0xff in position 0: invalid start byte''
          [CHR 0xFF, CHR ''G''] = Inr m)
   \<and> (\<exists>pre ds post.
          ''UnicodeDecodeError: 'utf-8' codec can't decode byte 0xff in position 0: invalid start byte''
            = pre @ ''in position '' @ ds @ '':'' @ post \<and> ds \<noteq> [] \<and>
          (\<forall>c\<in>set ds. isdigit c))"
proof -
  let ?e = "''UnicodeDecodeError: 'utf-8' codec can't decode bytes in position 0-1: invalid continuation byte''"
  let ?r = "\<lparr>returncode = 1, stdout = [], stderr = ?e\<rparr>"
  let ?g = "''UnicodeDecodeError: 'utf-8' codec can't decode byte 0xff in position 0: invalid start byte''"
  have m: "py_in ''UnicodeDecodeError:'' ?e" by code_simp
  have n: "re_search_position ?e = None" by code_simp
  then have no: "\<not> (\<exists>pre ds post. stderr ?r = pre @ ''in position '' @ ds @ '':'' @ post \<and>
             ds \<noteq> [] \<and> (\<forall>c\<in>set ds. isdigit c))"
    using re_search_position_None_iff [of ?e] by simp
  have v: "validate [''tmp'', ''bad.ags''] [CHR 0xE2, CHR 0x82, CHR 0x28]
        \<lparr>year = 2021, month = 8, day = 18, hour = 9, minute = 23, second = 29\<rparr> ?r None
        = Inl AttributeError"
    using get_unicode_message_needs_position [where result = ?r and filename = "[''tmp'', ''bad.ags'']"
        and file_bytes = "[CHR 0xE2, CHR 0x82, CHR 0x28]" and log_contents = None
        and now = "\<lparr>year = 2021, month = 8, day = 18, hour = 9, minute = 23, second = 29\<rparr>"] m no
    by simp
  have k: "re_search_position ?g = Some 0" by code_simp
  have g: "\<exists>m. get_unicode_message ?g [CHR 0xFF, CHR ''G''] = Inr m"
    using get_unicode_message_located [OF k, of "[CHR 0xFF, CHR ''G'']"] by simp
  have p: "\<exists>pre ds post. ?g = pre @ ''in position '' @ ds @ '':'' @ post \<and> ds \<noteq> [] \<and>
          (\<forall>c\<in>set ds. isdigit c)"
    using get_unicode_message_needs_position [where err = ?g
        and file_bytes = "[CHR 0xFF, CHR ''G'']"] g
    by blast
  from m n v g p show ?thesis by simp
qed

text \<open>
  \<open>validate\<close> returns a string report except in three cases: a non-zero exit code with the
  decoding marker and no position in stderr; a non-zero exit code with the marker and a
  position of \<open>2 ^ 63\<close> or more; and exit code 0 with a stdout that does not begin with
  \<open>ERROR: \<close> and no log file.  It never returns \<open>None\<close>.
\<close>

lemma validate_returns_report_iff:
  "(\<exists>report. validate filename file_bytes now result log_contents = Inr (Some report)) \<longleftrightarrow>
     \<not> (returncode result \<noteq> 0 \<and> py_in ''UnicodeDecodeError:'' (stderr result) \<and>
        re_search_position (stderr result) = None) \<and>
     \<not> (returncode result \<noteq> 0 \<and> py_in ''UnicodeDecodeError:'' (stderr result) \<and>
        (\<exists>k. re_search_position (stderr result) = Some k \<and> 2 ^ 63 \<le> k)) \<and>
     \<not> (returncode result = 0 \<and> \<not> startswith (stdout result) ''ERROR: '' \<and>
        log_contents = None)"
proof (cases "returncode result \<noteq> 0")
  case True
  show ?thesis
  proof (cases "py_in ''UnicodeDecodeError:'' (stderr result)")
    case marker: True
    show ?thesis
    proof (cases "re_search_position (stderr result)")
      case None
      with True marker show ?thesis
        by (simp add: validate_def classify_def get_unicode_message_no_match)
    next
      case (Some k)
      show ?thesis
      proof (cases "k < 2 ^ 63")
        case fits: True
        with True marker Some show ?thesis
          by (simp add: validate_def classify_def get_unicode_message_located Let_def)
      next
        case False
        then have "2 ^ 63 \<le> k" by simp
        with True marker Some show ?thesis
          by (simp add: validate_def classify_def get_unicode_message_overflow)
      qed
    qed
  next
    case False
    with True show ?thesis by (simp add: validate_def classify_def)
  qed
next
  case False
  then have z: "returncode result = 0" by simp
  show ?thesis
  proof (cases "startswith (stdout result) ''ERROR: ''")
    case True
    with z show ?thesis by (simp add: validate_def classify_def)
  next
    case False
    with z show ?thesis
      by (cases log_contents) (simp_all add: validate_def classify_def)
  qed
qed

lemma validate_never_None:
  "validate filename file_bytes now result log_contents \<noteq> Inr None"
  by (cases log_contents)
     (auto simp: validate_def classify_def split: option.splits sum.splits if_splits)

text \<open>
  Claim C2.  The claim is that every process outcome ends in a string report and no fault
  leaves \<open>validate\<close>.  With exit code 0, a stdout that does not begin with \<open>ERROR: \<close> and no
  log file, \<open>re.match\<close> is applied to \<open>None\<close> and \<open>validate\<close> raises \<open>TypeError\<close>; with a
  non-zero exit code and a decoding error over a range of bytes it raises \<open>AttributeError\<close>.
\<close>

theorem validate_faults:
  "validate [''tmp'', ''example1.ags''] ''GROUP''
     \<lparr>year = 2021, month = 8, day = 18, hour = 9, minute = 23, second = 29\<rparr>
     \<lparr>returncode = 0, stdout = [], stderr = []\<rparr> None = Inl TypeError
   \<and> validate [''tmp'', ''bad.ags''] [CHR 0xE2, CHR 0x82, CHR 0x28]
     \<lparr>year = 2021, month = 8, day = 18, hour = 9, minute = 23, second = 29\<rparr>
     \<lparr>returncode = 1, stdout = [],
      stderr = ''UnicodeDecodeError: 'utf-8' codec can't decode bytes in position 0-1: invalid continuation byte''\<rparr>
     None = Inl AttributeError"
proof -
  have "re_search_position
      ''UnicodeDecodeError: 'utf-8' codec can't decode bytes in position 0-1: invalid continuation byte''
      = None"
    by code_simp
  moreover have "py_in ''UnicodeDecodeError:''
      ''UnicodeDecodeError: 'utf-8' codec can't decode bytes in position 0-1: invalid continuation byte''"
    by code_simp
  ultimately show ?thesis
    by (simp add: validate_def classify_def startswith_def get_unicode_message_def)
qed

section \<open>The branches of the validator\<close>

text \<open>
  The error-count pattern matches exactly the texts that start with one or more digits
  followed by \<open> error(s) found in file\<close>.
\<close>

lemma re_match_error_count_iff:
  "re_match_error_count s \<longleftrightarrow>
     (\<exists>ds rest. s = ds @ '' error(s) found in file'' @ rest \<and> ds \<noteq> [] \<and>
        (\<forall>c\<in>set ds. isdigit c))"
proof
  assume m: "re_match_error_count s"
  then obtain rest where "dropWhile isdigit s = '' error(s) found in file'' @ rest"
    by (auto simp: re_match_error_count_def prefix_def)
  then have "s = takeWhile isdigit s @ '' error(s) found in file'' @ rest"
    using takeWhile_dropWhile_id [of isdigit s] by simp
  moreover have "\<forall>c\<in>set (takeWhile isdigit s). isdigit c" by (auto dest: set_takeWhileD)
  moreover from m have "takeWhile isdigit s \<noteq> []" by (simp add: re_match_error_count_def)
  ultimately show "\<exists>ds rest. s = ds @ '' error(s) found in file'' @ rest \<and> ds \<noteq> [] \<and>
        (\<forall>c\<in>set ds. isdigit c)"
    by blast
next
  assume "\<exists>ds rest. s = ds @ '' error(s) found in file'' @ rest \<and> ds \<noteq> [] \<and>
        (\<forall>c\<in>set ds. isdigit c)"
  then obtain ds rest where s: "s = ds @ '' error(s) found in file'' @ rest"
    and ne: "ds \<noteq> []" and dg: "\<forall>c\<in>set ds. isdigit c"
    by blast
  have sp: "\<not> isdigit CHR '' ''" by (simp add: isdigit_def)
  have tw: "takeWhile isdigit s = ds"
    unfolding s using dg sp by (simp add: takeWhile_append2)
  have dw: "dropWhile isdigit s = '' error(s) found in file'' @ rest"
    unfolding s using dg sp by (simp add: dropWhile_append2)
  show "re_match_error_count s"
    unfolding re_match_error_count_def tw dw using ne by (simp add: prefix_def)
qed

lemma py_in_append: "py_in sub s \<Longrightarrow> py_in sub (p @ s)"
proof -
  assume "py_in sub s"
  then obtain pre post where "s = pre @ sub @ post" by (auto simp: py_in_iff)
  then have "p @ s = (p @ pre) @ sub @ post" by simp
  then show ?thesis unfolding py_in_iff by blast
qed

lemma validate_template:
  "classify file_bytes result log_contents = Inr (True, Some m) \<Longrightarrow>
   validate filename file_bytes now result log_contents =
     Inr (Some (RESPONSE_TEMPLATE (path_name filename) (py_truediv_1024 (length file_bytes))
                  (strftime now) m))"
  by (simp add: validate_def)

lemma classify_nonzero_plain:
  "returncode result \<noteq> 0 \<Longrightarrow> \<not> py_in ''UnicodeDecodeError:'' (stderr result) \<Longrightarrow>
   classify file_bytes result log_contents = Inr (True, Some (''ERROR: '' @ stderr result))"
  by (simp add: classify_def)

lemma classify_nonzero_unicode:
  "returncode result \<noteq> 0 \<Longrightarrow> py_in ''UnicodeDecodeError:'' (stderr result) \<Longrightarrow>
   classify file_bytes result log_contents =
     (case get_unicode_message (stderr result) file_bytes of
        Inl e \<Rightarrow> Inl e | Inr message \<Rightarrow> Inr (True, Some message))"
  by (simp add: classify_def)

lemma classify_stdout_error:
  "returncode result = 0 \<Longrightarrow> startswith (stdout result) ''ERROR: '' \<Longrightarrow>
   classify file_bytes result log_contents = Inr (True, Some (stdout result))"
  by (simp add: classify_def)

lemma classify_log:
  "returncode result = 0 \<Longrightarrow> \<not> startswith (stdout result) ''ERROR: '' \<Longrightarrow>
   classify file_bytes result (Some l) =
     (if re_match_error_count l then Inr (True, Some l) else Inr (False, None))"
  by (simp add: classify_def)
text \<open>
  Claim C1.  The claim is that for every process outcome the branch is chosen in a fixed
  order, the first match deciding: a non-zero exit code, then a stdout that begins with
  \<open>ERROR: \<close>, then a log that starts with an error count, and otherwise \<open>use_template = False\<close>
  with the log returned as it is.  For an outcome without a log file, with exit code 0 and a
  stdout that does not begin with \<open>ERROR: \<close>, the last branch is the one that applies; the
  code raises \<open>TypeError\<close> in the test of the third and classifies nothing.
\<close>

theorem classify_absent_log_faults:
  "returncode \<lparr>returncode = 0, stdout = ''checked'', stderr = []\<rparr> = 0
   \<and> \<not> startswith (stdout \<lparr>returncode = 0, stdout = ''checked'', stderr = []\<rparr>) ''ERROR: ''
   \<and> classify ''GROUP'' \<lparr>returncode = 0, stdout = ''checked'', stderr = []\<rparr> None
       = Inl TypeError
   \<and> classify ''GROUP'' \<lparr>returncode = 0, stdout = ''checked'', stderr = []\<rparr> None
       \<noteq> Inr (False, None)
   \<and> validate [''tmp'', ''example1.ags''] ''GROUP''
       \<lparr>year = 2021, month = 8, day = 18, hour = 9, minute = 23, second = 29\<rparr>
       \<lparr>returncode = 0, stdout = ''checked'', stderr = []\<rparr> None
       \<noteq> Inr None"
  by (simp add: validate_def classify_def startswith_def)

text \<open>
  Where the code does not fault, the branches are taken in the order of the claim.  (1) A
  non-zero exit code gives \<open>use_template = True\<close>: the message is \<open>ERROR: \<close> and stderr when
  stderr has no decoding marker, and the located message when it has the marker and the
  search finds a position below \<open>2 ^ 63\<close>.  (2) Otherwise a stdout that begins with
  \<open>ERROR: \<close> gives \<open>use_template = True\<close> and the message stdout.  (3) Otherwise a log that
  is present and starts with digits and \<open> error(s) found in file\<close> gives
  \<open>use_template = True\<close> and the message the whole log.  (4) Otherwise, for a log that is
  present, \<open>use_template = False\<close> and \<open>validate\<close> returns the log as it is.  Whenever
  \<open>use_template\<close> is \<open>True\<close>, \<open>validate\<close> returns the template filled with the message.
\<close>

lemma classify_precedence:
  "(returncode result \<noteq> 0 \<and> \<not> py_in ''UnicodeDecodeError:'' (stderr result) \<longrightarrow>
      classify file_bytes result log_contents = Inr (True, Some (''ERROR: '' @ stderr result)))
   \<and> (returncode result \<noteq> 0 \<and> py_in ''UnicodeDecodeError:'' (stderr result) \<and>
       re_search_position (stderr result) = Some k \<and> k < 2 ^ 63 \<longrightarrow>
      (\<exists>m. get_unicode_message (stderr result) file_bytes = Inr m \<and>
           classify file_bytes result log_contents = Inr (True, Some m)))
   \<and> (returncode result = 0 \<and> startswith (stdout result) ''ERROR: '' \<longrightarrow>
      classify file_bytes result log_contents = Inr (True, Some (stdout result)))
   \<and> (returncode result = 0 \<and> \<not> startswith (stdout result) ''ERROR: '' \<and>
       log_contents = Some l \<and> re_match_error_count l \<longrightarrow>
      classify file_bytes result log_contents = Inr (True, Some l))
   \<and> (returncode result = 0 \<and> \<not> startswith (stdout result) ''ERROR: '' \<and>
       log_contents = Some l \<and> \<not> re_match_error_count l \<longrightarrow>
      classify file_bytes result log_contents = Inr (False, None) \<and>
      validate filename file_bytes now result log_contents = Inr (Some l))
   \<and> (\<forall>m. classify file_bytes result log_contents = Inr (True, Some m) \<longrightarrow>
      validate filename file_bytes now result log_contents =
        Inr (Some (RESPONSE_TEMPLATE (path_name filename)
                     (py_truediv_1024 (length file_bytes)) (strftime now) m)))"
proof (intro conjI impI allI)
  assume "returncode result \<noteq> 0 \<and> \<not> py_in ''UnicodeDecodeError:'' (stderr result)"
  then show "classify file_bytes result log_contents = Inr (True, Some (''ERROR: '' @ stderr result))"
    by (simp add: classify_nonzero_plain)
next
  assume h: "returncode result \<noteq> 0 \<and> py_in ''UnicodeDecodeError:'' (stderr result) \<and>
       re_search_position (stderr result) = Some k \<and> k < 2 ^ 63"
  then obtain m where m: "get_unicode_message (stderr result) file_bytes = Inr m"
    using get_unicode_message_located [of "stderr result" k file_bytes] by simp
  with h have "classify file_bytes result log_contents = Inr (True, Some m)"
    by (simp add: classify_nonzero_unicode)
  with m show "\<exists>m. get_unicode_message (stderr result) file_bytes = Inr m \<and>
           classify file_bytes result log_contents = Inr (True, Some m)"
    by blast
next
  assume "returncode result = 0 \<and> startswith (stdout result) ''ERROR: ''"
  then show "classify file_bytes result log_contents = Inr (True, Some (stdout result))"
    by (simp add: classify_stdout_error)
next
  assume "returncode result = 0 \<and> \<not> startswith (stdout result) ''ERROR: '' \<and>
       log_contents = Some l \<and> re_match_error_count l"
  then show "classify file_bytes result log_contents = Inr (True, Some l)"
    by (simp add: classify_log)
next
  assume h: "returncode result = 0 \<and> \<not> startswith (stdout result) ''ERROR: '' \<and>
       log_contents = Some l \<and> \<not> re_match_error_count l"
  then show c: "classify file_bytes result log_contents = Inr (False, None)"
    by (simp add: classify_log)
  with h show "validate filename file_bytes now result log_contents = Inr (Some l)"
    by (simp add: validate_def)
next
  fix m
  assume "classify file_bytes result log_contents = Inr (True, Some m)"
  then show "validate filename file_bytes now result log_contents =
        Inr (Some (RESPONSE_TEMPLATE (path_name filename)
                     (py_truediv_1024 (length file_bytes)) (strftime now) m))"
    by (rule validate_template)
qed

section \<open>The message for a decoding error\<close>

lemma str_of_nat_1: "str_of_nat (Suc 0) = ''1''"
  by code_simp

text \<open>
  Claim C5.  The claim is that for every non-zero exit code with the decoding marker in
  stderr the byte offset is taken from stderr, the locator is called and the message
  \<open>ERROR: Unreadable character\<close> with the character, column and line is built.  The
  pattern asks for \<open>in position\<close>, digits and a colon.  A decoding error over a range of
  bytes is written \<open>in position 10-11:\<close> (here for a file whose last two bytes start a
  three-byte UTF-8 sequence): the marker is there, the pattern does not match, and the code
  raises \<open>AttributeError\<close> where the claim has a message built.
\<close>

theorem unicode_message_faults:
  "returncode \<lparr>returncode = 1, stdout = [],
      stderr = ''UnicodeDecodeError: 'utf-8' codec can't decode bytes in position 10-11: unexpected end of data''\<rparr> \<noteq> 0
   \<and> py_in ''UnicodeDecodeError:''
       ''UnicodeDecodeError: 'utf-8' codec can't decode bytes in position 10-11: unexpected end of data''
   \<and> get_unicode_message
       ''UnicodeDecodeError: 'utf-8' codec can't decode bytes in position 10-11: unexpected end of data''
       (''GROUP,PROJ'' @ [CHR 0xE2, CHR 0x82]) = Inl AttributeError
   \<and> classify (''GROUP,PROJ'' @ [CHR 0xE2, CHR 0x82])
       \<lparr>returncode = 1, stdout = [],
        stderr = ''UnicodeDecodeError: 'utf-8' codec can't decode bytes in position 10-11: unexpected end of data''\<rparr>
       None = Inl AttributeError"
proof -
  let ?e = "''UnicodeDecodeError: 'utf-8' codec can't decode bytes in position 10-11: unexpected end of data''"
  have m: "py_in ''UnicodeDecodeError:'' ?e" by code_simp
  have n: "re_search_position ?e = None" by code_simp
  from m n show ?thesis by (simp add: classify_def get_unicode_message_def)
qed

text \<open>
  Where the search finds a position \<open>k\<close> below \<open>2 ^ 63\<close>: \<open>k\<close> is the integer
  written by one or more digits between \<open>in position\<close> with a space and a colon in stderr;
  the locator is called with it, and the message is \<open>ERROR: Unreadable character\<close>, the
  character in double quotes, \<open>at position\<close>, the column, \<open>on line:\<close>, the line number, a
  newline, \<open>Starting:\<close> and the start of the line, and two newlines.  For position 0 the
  message starts with \<open>ERROR: Unreadable character\<close>, the character in quotes,
  \<open>at position 1 on line: 1\<close>.
\<close>

lemma unicode_message_format:
  assumes "returncode result \<noteq> 0"
    and "py_in ''UnicodeDecodeError:'' (stderr result)"
    and "re_search_position (stderr result) = Some k"
    and "k < 2 ^ 63"
  shows "(\<exists>pre ds post. stderr result = pre @ ''in position '' @ ds @ '':'' @ post \<and>
            ds \<noteq> [] \<and> (\<forall>c\<in>set ds. isdigit c) \<and> k = int_of_digits ds)
    \<and> (\<exists>col line_no line char.
          line_of_error file_bytes (int k) = Inr (col, line_no, line, char) \<and>
          classify file_bytes result log_contents =
            Inr (True, Some (''ERROR: Unreadable character \"'' @ char @ ''\" at position ''
                             @ str_of_nat col @ '' on line: '' @ str_of_nat line_no
                             @ [LF] @ ''Starting: '' @ line @ [LF, LF])))
    \<and> (k = 0 \<longrightarrow>
          classify file_bytes result log_contents =
            Inr (True, Some (''ERROR: Unreadable character \"''
                             @ take 1 (universal_newlines file_bytes)
                             @ ''\" at position 1 on line: 1'' @ [LF]
                             @ ''Starting: '' @ [LF, LF])))"
proof (intro conjI impI)
  show "\<exists>pre ds post. stderr result = pre @ ''in position '' @ ds @ '':'' @ post \<and>
            ds \<noteq> [] \<and> (\<forall>c\<in>set ds. isdigit c) \<and> k = int_of_digits ds"
    using assms(3) by (rule re_search_position_Some_decomp)
next
  obtain col line_no line char where
    l: "line_of_error file_bytes (int k) = Inr (col, line_no, line, char)"
    using line_of_error_text [OF assms(4), of file_bytes] by (simp add: Let_def)
  with assms(1-3) have "classify file_bytes result log_contents =
            Inr (True, Some (''ERROR: Unreadable character \"'' @ char @ ''\" at position ''
                             @ str_of_nat col @ '' on line: '' @ str_of_nat line_no
                             @ [LF] @ ''Starting: '' @ line @ [LF, LF]))"
    by (simp add: classify_nonzero_unicode get_unicode_message_def)
  with l show "\<exists>col line_no line char.
          line_of_error file_bytes (int k) = Inr (col, line_no, line, char) \<and>
          classify file_bytes result log_contents =
            Inr (True, Some (''ERROR: Unreadable character \"'' @ char @ ''\" at position ''
                             @ str_of_nat col @ '' on line: '' @ str_of_nat line_no
                             @ [LF] @ ''Starting: '' @ line @ [LF, LF]))"
    by blast
next
  assume "k = 0"
  with assms(1-3) show "classify file_bytes result log_contents =
            Inr (True, Some (''ERROR: Unreadable character \"''
                             @ take 1 (universal_newlines file_bytes)
                             @ ''\" at position 1 on line: 1'' @ [LF]
                             @ ''Starting: '' @ [LF, LF]))"
    by (simp add: classify_nonzero_unicode get_unicode_message_def line_of_error_0 str_of_nat_1)
qed

lemma unicode_message_example:
  "classify [CHR 0xFF, CHR ''G'']
     \<lparr>returncode = 1, stdout = [],
      stderr = ''UnicodeDecodeError: 'utf-8' codec can't decode byte 0xff in position 0: invalid start byte''\<rparr>
     None
   = Inr (True, Some (''ERROR: Unreadable character \"'' @ [CHR 0xFF]
                      @ ''\" at position 1 on line: 1'' @ [LF] @ ''Starting: '' @ [LF, LF]))"
proof -
  let ?e = "''UnicodeDecodeError: 'utf-8' codec can't decode byte 0xff in position 0: invalid start byte''"
  let ?r = "\<lparr>returncode = 1, stdout = [], stderr = ?e\<rparr>"
  have m: "py_in ''UnicodeDecodeError:'' (stderr ?r)" by code_simp
  have k: "re_search_position (stderr ?r) = Some 0" by code_simp
  have r: "returncode ?r \<noteq> 0" by simp
  have b: "(0::nat) < 2 ^ 63" by simp
  have u: "take 1 (universal_newlines [CHR 0xFF, CHR ''G'']) = [CHR 0xFF]" by simp
  show ?thesis
    using unicode_message_format [OF r m k b, where file_bytes = "[CHR 0xFF, CHR ''G'']"
        and log_contents = None] u
    by simp
qed

section \<open>Logs that pass\<close>

text \<open>
  Claim C7, as amended.  For exit code 0, a stdout that does not begin with \<open>ERROR: \<close> and a
  log that contains \<open>All checks passed!\<close>: when the log does not start with the error-count
  pattern, \<open>use_template\<close> is \<open>False\<close> and the report is the log unchanged; in every case a
  report is returned and \<open>log_is_valid\<close> of it is true.  \<open>log_is_valid\<close> of a report is true
  exactly when the report contains \<open>All checks passed!\<close>.
\<close>

theorem passed_log_is_valid:
  assumes "returncode result = 0"
    and "\<not> startswith (stdout result) ''ERROR: ''"
    and "py_in ''All checks passed!'' l"
  shows "(\<not> re_match_error_count l \<longrightarrow>
            classify file_bytes result (Some l) = Inr (False, None) \<and>
            validate filename file_bytes now result (Some l) = Inr (Some l))
    \<and> (\<exists>report. validate filename file_bytes now result (Some l) = Inr (Some report) \<and>
                 log_is_valid report)
    \<and> (\<forall>report. log_is_valid report \<longleftrightarrow>
                 (\<exists>pre post. report = pre @ ''All checks passed!'' @ post))"
proof (intro conjI impI allI)
  assume n: "\<not> re_match_error_count l"
  with assms show c: "classify file_bytes result (Some l) = Inr (False, None)"
    by (simp add: classify_log)
  then show "validate filename file_bytes now result (Some l) = Inr (Some l)"
    by (simp add: validate_def)
next
  show "\<exists>report. validate filename file_bytes now result (Some l) = Inr (Some report) \<and>
                 log_is_valid report"
  proof (cases "re_match_error_count l")
    case True
    with assms have "classify file_bytes result (Some l) = Inr (True, Some l)"
      by (simp add: classify_log)
    then have "validate filename file_bytes now result (Some l) =
        Inr (Some (RESPONSE_TEMPLATE (path_name filename)
                     (py_truediv_1024 (length file_bytes)) (strftime now) l))"
      by (rule validate_template)
    moreover have "log_is_valid (RESPONSE_TEMPLATE (path_name filename)
                     (py_truediv_1024 (length file_bytes)) (strftime now) l)"
      unfolding log_is_valid_def RESPONSE_TEMPLATE_def
      using assms(3) by (intro py_in_append)
    ultimately show ?thesis by blast
  next
    case False
    with assms have "classify file_bytes result (Some l) = Inr (False, None)"
      by (simp add: classify_log)
    then have "validate filename file_bytes now result (Some l) = Inr (Some l)"
      by (simp add: validate_def)
    with assms(3) show ?thesis by (simp add: log_is_valid_def)
  qed
next
  fix report
  show "log_is_valid report \<longleftrightarrow> (\<exists>pre post. report = pre @ ''All checks passed!'' @ post)"
    unfolding log_is_valid_def by (rule py_in_iff)
qed

theorem passed_log_is_valid_witness:
  "validate [''tmp'', ''example1.ags''] ''GROUP''
     \<lparr>year = 2021, month = 8, day = 18, hour = 9, minute = 23, second = 29\<rparr>
     \<lparr>returncode = 0, stdout = [], stderr = []\<rparr>
     (Some ''File Name: example1.ags All checks passed!'')
   = Inr (Some ''File Name: example1.ags All checks passed!'')
   \<and> log_is_valid ''File Name: example1.ags All checks passed!''"
proof -
  let ?ok = "\<lparr>returncode = 0, stdout = [], stderr = []\<rparr>"
  let ?l = "''File Name: example1.ags All checks passed!''"
  have r: "returncode ?ok = 0" by simp
  have s: "\<not> startswith (stdout ?ok) ''ERROR: ''" by code_simp
  have i: "py_in ''All checks passed!'' ?l" by code_simp
  have n: "\<not> re_match_error_count ?l" by code_simp
  from i have "log_is_valid ?l" by (simp only: log_is_valid_def)
  with passed_log_is_valid [OF r s i, where file_bytes = "''GROUP''"
      and filename = "[''tmp'', ''example1.ags'']"
      and now = "\<lparr>year = 2021, month = 8, day = 18, hour = 9, minute = 23, second = 29\<rparr>"] n
  show ?thesis by blast
qed

text \<open>
  Claim C7 as stated: every log that contains \<open>All checks passed!\<close> is returned unchanged
  with \<open>use_template = False\<close>.  A log that also starts with an error count is taken by the
  earlier branch: \<open>use_template\<close> is \<open>True\<close> and the report is the template, not the log.
\<close>

theorem passed_log_counterexample:
  "returncode \<lparr>returncode = 0, stdout = [], stderr = []\<rparr> = 0
   \<and> \<not> startswith (stdout \<lparr>returncode = 0, stdout = [], stderr = []\<rparr>) ''ERROR: ''
   \<and> py_in ''All checks passed!'' ''1 error(s) found in file: All checks passed!''
   \<and> classify ''GROUP'' \<lparr>returncode = 0, stdout = [], stderr = []\<rparr>
        (Some ''1 error(s) found in file: All checks passed!'')
      = Inr (True, Some ''1 error(s) found in file: All checks passed!'')
   \<and> validate [''tmp'', ''example1.ags''] ''GROUP''
        \<lparr>year = 2021, month = 8, day = 18, hour = 9, minute = 23, second = 29\<rparr>
        \<lparr>returncode = 0, stdout = [], stderr = []\<rparr>
        (Some ''1 error(s) found in file: All checks passed!'')
      \<noteq> Inr (Some ''1 error(s) found in file: All checks passed!'')"
proof -
  let ?ok = "\<lparr>returncode = 0, stdout = [], stderr = []\<rparr>"
  let ?l = "''1 error(s) found in file: All checks passed!''"
  have s: "\<not> startswith (stdout ?ok) ''ERROR: ''" by code_simp
  have i: "py_in ''All checks passed!'' ?l" by code_simp
  have m: "re_match_error_count ?l" by code_simp
  from s m have c: "classify ''GROUP'' ?ok (Some ?l) = Inr (True, Some ?l)"
    by (simp add: classify_log)
  then have "validate [''tmp'', ''example1.ags''] ''GROUP''
        \<lparr>year = 2021, month = 8, day = 18, hour = 9, minute = 23, second = 29\<rparr> ?ok (Some ?l)
      \<noteq> Inr (Some ?l)"
    by (simp add: validate_template RESPONSE_TEMPLATE_def)
  with s i c show ?thesis by simp
qed

section \<open>The column in the message\<close>

text \<open>
  Claim C6, as amended.  For a non-zero exit code, a stderr with the decoding marker in
  which the search finds the position \<open>k\<close>, and a file without carriage returns that has at
  least \<open>k\<close> bytes (and, as every file, fewer than \<open>2 ^ 63\<close>): the column in the message is
  \<open>k + 1\<close> minus the number of bytes, among the first \<open>k\<close>, up to and including the last
  newline (\<open>k + 1\<close> when there is none).  The line number is one more than the number of
  newlines among the first \<open>k\<close> bytes.  The locator is a function of the bytes and the
  offset.
\<close>

theorem reported_column:
  assumes "returncode result \<noteq> 0"
    and "py_in ''UnicodeDecodeError:'' (stderr result)"
    and "re_search_position (stderr result) = Some k"
    and "CR \<notin> set file_bytes"
    and "k \<le> length file_bytes"
    and "length file_bytes < 2 ^ 63"
  shows "classify file_bytes result log_contents =
     Inr (True, Some (''ERROR: Unreadable character \"'' @ take 1 (drop k file_bytes)
        @ ''\" at position ''
        @ str_of_nat (k + 1 - length (dropWhile (\<lambda>c. c \<noteq> LF) (rev (take k file_bytes))))
        @ '' on line: '' @ str_of_nat (count_newlines (take k file_bytes) + 1)
        @ [LF] @ ''Starting: '' @ rev (takeWhile (\<lambda>c. c \<noteq> LF) (rev (take k file_bytes)))
        @ [LF, LF]))"
proof -
  let ?upto = "take k file_bytes"
  let ?P = "\<lambda>c. c \<noteq> LF"
  have "length (takeWhile ?P (rev ?upto)) + length (dropWhile ?P (rev ?upto)) = length (rev ?upto)"
    by (metis length_append takeWhile_dropWhile_id)
  with assms(5) have col: "Suc k - length (dropWhile ?P (rev ?upto))
      = Suc (length (takeWhile ?P (rev ?upto)))"
    by simp
  from assms(5,6) have fits: "k < 2 ^ 63" by simp
  from assms(1-4) show ?thesis
    by (simp add: classify_nonzero_unicode get_unicode_message_located [OF assms(3) fits]
        universal_newlines_id Let_def col)
qed

theorem reported_column_witness:
  "classify (''ab'' @ [LF] @ ''c'' @ [CHR 0xFF])
     \<lparr>returncode = 1, stdout = [],
      stderr = ''UnicodeDecodeError: 'utf-8' codec can't decode byte 0xff in position 4: invalid start byte''\<rparr>
     None
   = Inr (True, Some (''ERROR: Unreadable character \"'' @ [CHR 0xFF]
        @ ''\" at position 2 on line: 2'' @ [LF] @ ''Starting: c'' @ [LF, LF]))"
proof -
  let ?e = "''UnicodeDecodeError: 'utf-8' codec can't decode byte 0xff in position 4: invalid start byte''"
  let ?r = "\<lparr>returncode = 1, stdout = [], stderr = ?e\<rparr>"
  let ?b = "''ab'' @ [LF] @ ''c'' @ [CHR 0xFF]"
  have r: "returncode ?r \<noteq> 0" by simp
  have m: "py_in ''UnicodeDecodeError:'' (stderr ?r)" by code_simp
  have k: "re_search_position (stderr ?r) = Some 4" by code_simp
  have c: "CR \<notin> set ?b" by simp
  have l: "4 \<le> length ?b" by simp
  have z: "length ?b < 2 ^ 63" by simp
  have f1: "str_of_nat (4 + 1 - length (dropWhile (\<lambda>c. c \<noteq> LF) (rev (take 4 ?b)))) = ''2''"
    by code_simp
  have f2: "str_of_nat (count_newlines (take 4 ?b) + 1) = ''2''" by code_simp
  have f3: "rev (takeWhile (\<lambda>c. c \<noteq> LF) (rev (take 4 ?b))) = ''c''" by code_simp
  have f4: "take 1 (drop 4 ?b) = [CHR 0xFF]" by code_simp
  show ?thesis
    using reported_column [OF r m k c l z, where log_contents = None, unfolded f1 f2 f3 f4]
    by simp
qed

text \<open>
  Claim C6 as stated: the column is \<open>K\<close> minus the number of newlines before the offset.
  In the file \<open>ab\<close>, newline, \<open>c\<close>, \<open>0xFF\<close> and \<open>K = 4\<close>, one newline precedes the
  offset and \<open>K - 1 = 3\<close>; the message reports column 2.
\<close>

theorem reported_column_counterexample:
  "classify (''ab'' @ [LF] @ ''c'' @ [CHR 0xFF])
     \<lparr>returncode = 1, stdout = [],
      stderr = ''UnicodeDecodeError: 'utf-8' codec can't decode byte 0xff in position 4: invalid start byte''\<rparr>
     None
   = Inr (True, Some (''ERROR: Unreadable character \"'' @ [CHR 0xFF]
        @ ''\" at position 2 on line: 2'' @ [LF] @ ''Starting: c'' @ [LF, LF]))
   \<and> re_search_position
        ''UnicodeDecodeError: 'utf-8' codec can't decode byte 0xff in position 4: invalid start byte''
      = Some 4
   \<and> 4 - count_newlines (take 4 (''ab'' @ [LF] @ ''c'' @ [CHR 0xFF])) = 3"
proof -
  let ?e = "''UnicodeDecodeError: 'utf-8' codec can't decode byte 0xff in position 4: invalid start byte''"
  have m: "py_in ''UnicodeDecodeError:'' ?e" by code_simp
  have k: "re_search_position ?e = Some 4" by code_simp
  have l: "line_of_error (''ab'' @ [LF] @ ''c'' @ [CHR 0xFF]) 4
      = Inr (2, 2, ''c'', [CHR 0xFF])"
    by (simp add: line_of_error_def open_text_def f_read_def count_newlines_def)
  have s2: "str_of_nat 2 = ''2''" by code_simp
  from m k l s2 show ?thesis
    by (simp add: classify_def get_unicode_message_def count_newlines_def)
qed

section \<open>Facts about numbers in decimal\<close>

lemma digit_char_values:
  "digit_char 0 = CHR ''0''" "digit_char (Suc 0) = CHR ''1''" "digit_char 2 = CHR ''2''"
  "digit_char 3 = CHR ''3''" "digit_char 4 = CHR ''4''" "digit_char 5 = CHR ''5''"
  "digit_char 6 = CHR ''6''" "digit_char 7 = CHR ''7''" "digit_char 8 = CHR ''8''"
  "digit_char 9 = CHR ''9''"
  by code_simp+

lemma digit_char_isdigit: "d < 10 \<Longrightarrow> isdigit (digit_char d)"
proof -
  assume "d < 10"
  then consider "d = 0" | "d = 1" | "d = 2" | "d = 3" | "d = 4" | "d = 5" | "d = 6"
    | "d = 7" | "d = 8" | "d = 9"
    by atomize_elim presburger
  then show ?thesis by cases (simp_all add: digit_char_values isdigit_def)
qed

lemma digit_value_digit_char: "d < 10 \<Longrightarrow> digit_value (digit_char d) = d"
  by (simp add: digit_value_def digit_char_def)

lemma str_of_nat_digits: "\<forall>c\<in>set (str_of_nat n). isdigit c"
proof (induction n rule: str_of_nat.induct)
  case (1 n)
  show ?case
  proof (cases "n < 10")
    case True
    then show ?thesis by (simp add: str_of_nat.simps [of n] digit_char_isdigit)
  next
    case False
    with 1 show ?thesis by (simp add: str_of_nat.simps [of n] digit_char_isdigit)
  qed
qed

lemma str_of_nat_nonempty: "str_of_nat n \<noteq> []"
  by (simp add: str_of_nat.simps [of n])

lemma length_str_of_nat: "0 < k \<Longrightarrow> n < 10 ^ k \<Longrightarrow> length (str_of_nat n) \<le> k"
proof (induction n arbitrary: k rule: str_of_nat.induct)
  case (1 n)
  show ?case
  proof (cases "n < 10")
    case True
    with 1(2) show ?thesis by (simp add: str_of_nat.simps [of n] Suc_leI)
  next
    case False
    with 1(2,3) obtain k' where k: "k = Suc k'" and "0 < k'"
      by (cases k; cases "k - 1") auto
    with 1(3) have "n div 10 < 10 ^ k'"
      by (simp add: less_mult_imp_div_less mult.commute)
    with 1(1) [OF False \<open>0 < k'\<close>] have "length (str_of_nat (n div 10)) \<le> k'" by simp
    with False k show ?thesis by (simp add: str_of_nat.simps [of n])
  qed
qed

lemma length_str_of_nat_lower: "10 ^ k \<le> n \<Longrightarrow> k < length (str_of_nat n)"
proof (induction n arbitrary: k rule: str_of_nat.induct)
  case (1 n)
  show ?case
  proof (cases k)
    case 0
    then show ?thesis using str_of_nat_nonempty [of n] by simp
  next
    case (Suc k')
    with 1(2) have big: "10 * 10 ^ k' \<le> n" by simp
    have "(10::nat) \<le> 10 * 10 ^ k'" by simp
    with big have "\<not> n < 10" by linarith
    moreover from big have "10 ^ k' \<le> n div 10" by (simp add: less_eq_div_iff_mult_less_eq mult.commute)
    ultimately have "k' < length (str_of_nat (n div 10))" using 1(1) by simp
    with \<open>\<not> n < 10\<close> Suc show ?thesis by (simp add: str_of_nat.simps [of n])
  qed
qed

text \<open>A year from 1000 to 9999 is written with four digits.\<close>

lemma length_str_of_nat_year:
  assumes "1000 \<le> n" and "n \<le> 9999"
  shows "length (str_of_nat n) = 4"
proof -
  from assms(1) have "10 ^ 3 \<le> n" by simp
  then have "3 < length (str_of_nat n)" by (rule length_str_of_nat_lower)
  moreover from assms(2) have "n < 10 ^ 4" by simp
  then have "length (str_of_nat n) \<le> 4" by (intro length_str_of_nat) simp_all
  ultimately show ?thesis by simp
qed

lemma int_of_digits_snoc: "int_of_digits (ds @ [c]) = 10 * int_of_digits ds + digit_value c"
  by (simp add: int_of_digits_def)

lemma int_of_digits_str_of_nat: "int_of_digits (str_of_nat n) = n"
proof (induction n rule: str_of_nat.induct)
  case (1 n)
  show ?case
  proof (cases "n < 10")
    case True
    then show ?thesis
      by (simp add: str_of_nat.simps [of n] int_of_digits_def digit_value_digit_char)
  next
    case False
    with 1 show ?thesis
      by (simp add: str_of_nat.simps [of n] int_of_digits_snoc digit_value_digit_char)
  qed
qed

lemma int_of_digits_zeros: "int_of_digits (replicate k CHR ''0'' @ s) = int_of_digits s"
proof -
  have z: "digit_value CHR ''0'' = 0" by code_simp
  have "foldl (\<lambda>acc c. 10 * acc + digit_value c) 0 (replicate k CHR ''0'') = 0"
    by (induction k) (simp_all add: z)
  then show ?thesis by (simp add: int_of_digits_def)
qed

text \<open>A field of \<open>strftime\<close>: exactly \<open>w\<close> digits that read back as the number.\<close>

lemma zfill_field:
  assumes "0 < w" and "n < 10 ^ w"
  shows "length (zfill w (str_of_nat n)) = w"
    and "\<forall>c\<in>set (zfill w (str_of_nat n)). isdigit c"
    and "int_of_digits (zfill w (str_of_nat n)) = n"
proof -
  from assms have "length (str_of_nat n) \<le> w" by (rule length_str_of_nat)
  then show "length (zfill w (str_of_nat n)) = w" by (simp add: zfill_def)
  have "isdigit CHR ''0''" by (simp add: isdigit_def)
  then show "\<forall>c\<in>set (zfill w (str_of_nat n)). isdigit c"
    using str_of_nat_digits [of n] by (auto simp: zfill_def)
  show "int_of_digits (zfill w (str_of_nat n)) = n"
    by (simp add: zfill_def int_of_digits_zeros int_of_digits_str_of_nat)
qed

section \<open>Facts about the file size\<close>

lemma bit_length_le: "bit_length n \<le> k \<longleftrightarrow> n < 2 ^ k"
proof (induction n arbitrary: k rule: bit_length.induct)
  case (1 n)
  show ?case
  proof (cases "n = 0")
    case True
    then show ?thesis by (simp add: bit_length.simps [of 0])
  next
    case False
    show ?thesis
    proof (cases k)
      case 0
      with False show ?thesis by (simp add: bit_length.simps [of n])
    next
      case (Suc k')
      have "n div 2 < 2 ^ k' \<longleftrightarrow> n < 2 * 2 ^ k'" by auto
      with 1 [OF False, of k'] False Suc show ?thesis
        by (simp add: bit_length.simps [of n])
    qed
  qed
qed

text \<open>Below \<open>2 ^ 53\<close> bytes the division is exact.\<close>

lemma py_truediv_1024_exact: "n < 2 ^ 53 \<Longrightarrow> py_truediv_1024 n = of_nat n / 1024"
  using bit_length_le [of n 53] by (simp add: py_truediv_1024_def float_of_nat_def)

lemma round_half_even_1024:
  "round_half_even (of_nat b / 1024) =
     int (if b mod 1024 < 512 then b div 1024
          else if 512 < b mod 1024 then b div 1024 + 1
          else if even (b div 1024) then b div 1024 else b div 1024 + 1)"
proof -
  have fl: "\<lfloor>(of_nat b :: rat) / 1024\<rfloor> = int (b div 1024)"
    using floor_divide_of_nat_eq [of b 1024, where ?'a = rat] by simp
  have "(of_nat b :: rat) = of_nat (1024 * (b div 1024) + b mod 1024)" by simp
  then have "(of_nat b :: rat) = 1024 * of_nat (b div 1024) + of_nat (b mod 1024)"
    by (simp only: of_nat_add of_nat_mult of_nat_numeral)
  then have fr: "(of_nat b :: rat) / 1024 - of_int (int (b div 1024)) = of_nat (b mod 1024) / 1024"
    by (simp add: field_simps)
  have lt: "(of_nat (b mod 1024) :: rat) / 1024 < 1 / 2 \<longleftrightarrow> b mod 1024 < 512"
    by (simp add: field_simps)
  have gt: "1 / 2 < (of_nat (b mod 1024) :: rat) / 1024 \<longleftrightarrow> 512 < b mod 1024"
    by (simp add: field_simps)
  show ?thesis
    unfolding round_half_even_def Let_def fl fr lt gt by simp
qed

lemma format_0f_py_truediv_1024:
  "format_0f (py_truediv_1024 n) =
     str_of_nat (let b = float_of_nat n
                 in if b mod 1024 < 512 then b div 1024
                    else if 512 < b mod 1024 then b div 1024 + 1
                    else if even (b div 1024) then b div 1024 else b div 1024 + 1)"
proof -
  have "\<not> py_truediv_1024 n < 0" by (simp add: py_truediv_1024_def)
  moreover have "\<bar>py_truediv_1024 n\<bar> = of_nat (float_of_nat n) / 1024"
    by (simp add: py_truediv_1024_def)
  ultimately show ?thesis
    unfolding format_0f_def by (simp only: round_half_even_1024 nat_int Let_def if_False append_Nil)
qed

text \<open>The number shown is a whole number nearest to the quotient.\<close>

lemma round_half_even_nearest: "\<bar>of_int (round_half_even x) - x\<bar> \<le> 1 / 2"
proof -
  have "of_int \<lfloor>x\<rfloor> \<le> x" "x < of_int \<lfloor>x\<rfloor> + 1" by linarith+
  then show ?thesis
    unfolding round_half_even_def Let_def by (auto simp: abs_le_iff)
qed

section \<open>The report\<close>

lemma strftime_fields:
  assumes "datetime_ok t"
  shows "length (str_of_nat (year t)) = 4"
    and "length (zfill 2 (str_of_nat (month t))) = 2"
    and "length (zfill 2 (str_of_nat (day t))) = 2"
    and "length (zfill 2 (str_of_nat (hour t))) = 2"
    and "length (zfill 2 (str_of_nat (minute t))) = 2"
    and "length (zfill 2 (str_of_nat (second t))) = 2"
  using assms by (simp_all add: datetime_ok_def zfill_field(1) length_str_of_nat_year)

lemma length_strftime: "datetime_ok t \<Longrightarrow> length (strftime t) = 19"
  by (simp add: strftime_def strftime_fields)

text \<open>
  Claim C8.  A report made from the template is three header lines, an empty line and the
  message.  The first line is \<open>File Name:\<close>, a space, a tab, a space and the file name; the
  second is \<open>File Size:\<close>, the same separator, a whole number in decimal and \<open> kB\<close>, the
  number being a nearest whole number to the size divided by 1024 (the quotient is exact
  below \<open>2 ^ 53\<close> bytes); the third is \<open>Time (UTC):\<close>, the separator and the clock as four
  digits of year, two of month and two of day joined by \<open>-\<close>, a space, and two digits each of
  hour, minute and second joined by \<open>:\<close>, for a reading of the clock with a year from 1000
  to 9999.  \<open>validate\<close> returns this text whenever \<open>use_template\<close> is \<open>True\<close>.
\<close>

theorem report_layout:
  assumes "datetime_ok now"
  shows "\<exists>kb Y Mo D H Mi S.
      RESPONSE_TEMPLATE name (py_truediv_1024 st_size) (strftime now) message =
        ''File Name: '' @ [TAB] @ '' '' @ name @ [LF]
        @ ''File Size: '' @ [TAB] @ '' '' @ str_of_nat kb @ '' kB'' @ [LF]
        @ ''Time (UTC): '' @ [TAB] @ '' '' @ Y @ ''-'' @ Mo @ ''-'' @ D @ '' ''
          @ H @ '':'' @ Mi @ '':'' @ S @ [LF]
        @ [LF]
        @ message
      \<and> \<bar>of_nat kb - py_truediv_1024 st_size\<bar> \<le> 1 / 2
      \<and> (st_size < 2 ^ 53 \<longrightarrow> py_truediv_1024 st_size = of_nat st_size / 1024)
      \<and> (\<forall>c\<in>set (str_of_nat kb). isdigit c)
      \<and> length Y = 4 \<and> length Mo = 2 \<and> length D = 2
      \<and> length H = 2 \<and> length Mi = 2 \<and> length S = 2
      \<and> (\<forall>c\<in>set (Y @ Mo @ D @ H @ Mi @ S). isdigit c)
      \<and> int_of_digits Y = year now \<and> int_of_digits Mo = month now
      \<and> int_of_digits D = day now \<and> int_of_digits H = hour now
      \<and> int_of_digits Mi = minute now \<and> int_of_digits S = second now
      \<and> (classify file_bytes result log_contents = Inr (True, Some message) \<longrightarrow>
           validate filename file_bytes now result log_contents =
             Inr (Some (RESPONSE_TEMPLATE (path_name filename)
                          (py_truediv_1024 (length file_bytes)) (strftime now) message)))"
proof -
  let ?x = "py_truediv_1024 st_size"
  let ?kb = "nat (round_half_even ?x)"
  have nonneg: "0 \<le> ?x" by (simp add: py_truediv_1024_def)
  then have r0: "0 \<le> round_half_even ?x"
    by (auto simp: round_half_even_def Let_def)
  have shown: "format_0f ?x = str_of_nat ?kb"
    using nonneg by (simp add: format_0f_def)
  have near: "\<bar>of_nat ?kb - ?x\<bar> \<le> 1 / 2"
    using round_half_even_nearest [of ?x] r0 by simp
  from assms have b: "year now < 10 ^ 4" "month now < 10 ^ 2" "day now < 10 ^ 2"
    "hour now < 10 ^ 2" "minute now < 10 ^ 2" "second now < 10 ^ 2"
    by (simp_all add: datetime_ok_def)
  show ?thesis
    apply (rule exI [of _ ?kb])
    apply (rule exI [of _ "str_of_nat (year now)"])
    apply (rule exI [of _ "zfill 2 (str_of_nat (month now))"])
    apply (rule exI [of _ "zfill 2 (str_of_nat (day now))"])
    apply (rule exI [of _ "zfill 2 (str_of_nat (hour now))"])
    apply (rule exI [of _ "zfill 2 (str_of_nat (minute now))"])
    apply (rule exI [of _ "zfill 2 (str_of_nat (second now))"])
    apply (intro conjI impI)
    subgoal by (simp add: RESPONSE_TEMPLATE_def shown strftime_def)
    subgoal by (rule near)
    subgoal by (rule py_truediv_1024_exact)
    subgoal by (rule str_of_nat_digits)
    subgoal using assms by (rule strftime_fields(1))
    subgoal using b by (simp add: zfill_field(1))
    subgoal using b by (simp add: zfill_field(1))
    subgoal using b by (simp add: zfill_field(1))
    subgoal using b by (simp add: zfill_field(1))
    subgoal using b by (simp add: zfill_field(1))
    subgoal using b str_of_nat_digits [of "year now"] zfill_field(2) [of 2 "month now"]
        zfill_field(2) [of 2 "day now"] zfill_field(2) [of 2 "hour now"]
        zfill_field(2) [of 2 "minute now"] zfill_field(2) [of 2 "second now"]
      by auto
    subgoal by (rule int_of_digits_str_of_nat)
    subgoal using b by (simp add: zfill_field(3))
    subgoal using b by (simp add: zfill_field(3))
    subgoal using b by (simp add: zfill_field(3))
    subgoal using b by (simp add: zfill_field(3))
    subgoal using b by (simp add: zfill_field(3))
    subgoal by (rule validate_template)
    done
qed

theorem report_layout_witness:
  "datetime_ok \<lparr>year = 2021, month = 8, day = 18, hour = 9, minute = 23, second = 29\<rparr>
   \<and> (\<exists>kb Y Mo D H Mi S.
      RESPONSE_TEMPLATE ''example1.xlsx'' (py_truediv_1024 1536) (strftime 
          \<lparr>year = 2021, month = 8, day = 18, hour = 9, minute = 23, second = 29\<rparr>)
          ''ERROR: Only .ags files are accepted as input'' =
        ''File Name: '' @ [TAB] @ '' '' @ ''example1.xlsx'' @ [LF]
        @ ''File Size: '' @ [TAB] @ '' '' @ str_of_nat kb @ '' kB'' @ [LF]
        @ ''Time (UTC): '' @ [TAB] @ '' '' @ Y @ ''-'' @ Mo @ ''-'' @ D @ '' ''
          @ H @ '':'' @ Mi @ '':'' @ S @ [LF]
        @ [LF]
        @ ''ERROR: Only .ags files are accepted as input''
      \<and> \<bar>of_nat kb - py_truediv_1024 1536\<bar> \<le> 1 / 2
      \<and> (1536 < (2::nat) ^ 53 \<longrightarrow> py_truediv_1024 1536 = of_nat 1536 / 1024)
      \<and> (\<forall>c\<in>set (str_of_nat kb). isdigit c)
      \<and> length Y = 4 \<and> length Mo = 2 \<and> length D = 2
      \<and> length H = 2 \<and> length Mi = 2 \<and> length S = 2
      \<and> (\<forall>c\<in>set (Y @ Mo @ D @ H @ Mi @ S). isdigit c)
      \<and> int_of_digits Y = year 
          \<lparr>year = 2021, month = 8, day = 18, hour = 9, minute = 23, second = 29\<rparr> \<and> int_of_digits Mo = month 
          \<lparr>year = 2021, month = 8, day = 18, hour = 9, minute = 23, second = 29\<rparr>
      \<and> int_of_digits D = day 
          \<lparr>year = 2021, month = 8, day = 18, hour = 9, minute = 23, second = 29\<rparr> \<and> int_of_digits H = hour 
          \<lparr>year = 2021, month = 8, day = 18, hour = 9, minute = 23, second = 29\<rparr>
      \<and> int_of_digits Mi = minute 
          \<lparr>year = 2021, month = 8, day = 18, hour = 9, minute = 23, second = 29\<rparr> \<and> int_of_digits S = second 
          \<lparr>year = 2021, month = 8, day = 18, hour = 9, minute = 23, second = 29\<rparr>
      \<and> (classify (replicate 1536 CHR ''x'')
            \<lparr>returncode = 0, stdout = ''ERROR: Only .ags files are accepted as input'',
             stderr = []\<rparr> None
          = Inr (True, Some ''ERROR: Only .ags files are accepted as input'') \<longrightarrow>
           validate [''tmp'', ''example1.xlsx''] (replicate 1536 CHR ''x'') 
          \<lparr>year = 2021, month = 8, day = 18, hour = 9, minute = 23, second = 29\<rparr>
             \<lparr>returncode = 0, stdout = ''ERROR: Only .ags files are accepted as input'',
              stderr = []\<rparr> None =
             Inr (Some (RESPONSE_TEMPLATE (path_name [''tmp'', ''example1.xlsx''])
                          (py_truediv_1024 (length (replicate 1536 CHR ''x''))) (strftime 
          \<lparr>year = 2021, month = 8, day = 18, hour = 9, minute = 23, second = 29\<rparr>)
                          ''ERROR: Only .ags files are accepted as input''))))"
proof (intro conjI)
  show d: "datetime_ok \<lparr>year = 2021, month = 8, day = 18, hour = 9, minute = 23, second = 29\<rparr>"
    by (simp add: datetime_ok_def)
  show "(\<exists>kb Y Mo D H Mi S.
      RESPONSE_TEMPLATE ''example1.xlsx'' (py_truediv_1024 1536) (strftime 
          \<lparr>year = 2021, month = 8, day = 18, hour = 9, minute = 23, second = 29\<rparr>)
          ''ERROR: Only .ags files are accepted as input'' =
        ''File Name: '' @ [TAB] @ '' '' @ ''example1.xlsx'' @ [LF]
        @ ''File Size: '' @ [TAB] @ '' '' @ str_of_nat kb @ '' kB'' @ [LF]
        @ ''Time (UTC): '' @ [TAB] @ '' '' @ Y @ ''-'' @ Mo @ ''-'' @ D @ '' ''
          @ H @ '':'' @ Mi @ '':'' @ S @ [LF]
        @ [LF]
        @ ''ERROR: Only .ags files are accepted as input''
      \<and> \<bar>of_nat kb - py_truediv_1024 1536\<bar> \<le> 1 / 2
      \<and> (1536 < (2::nat) ^ 53 \<longrightarrow> py_truediv_1024 1536 = of_nat 1536 / 1024)
      \<and> (\<forall>c\<in>set (str_of_nat kb). isdigit c)
      \<and> length Y = 4 \<and> length Mo = 2 \<and> length D = 2
      \<and> length H = 2 \<and> length Mi = 2 \<and> length S = 2
      \<and> (\<forall>c\<in>set (Y @ Mo @ D @ H @ Mi @ S). isdigit c)
      \<and> int_of_digits Y = year 
          \<lparr>year = 2021, month = 8, day = 18, hour = 9, minute = 23, second = 29\<rparr> \<and> int_of_digits Mo = month 
          \<lparr>year = 2021, month = 8, day = 18, hour = 9, minute = 23, second = 29\<rparr>
      \<and> int_of_digits D = day 
          \<lparr>year = 2021, month = 8, day = 18, hour = 9, minute = 23, second = 29\<rparr> \<and> int_of_digits H = hour 
          \<lparr>year = 2021, month = 8, day = 18, hour = 9, minute = 23, second = 29\<rparr>
      \<and> int_of_digits Mi = minute 
          \<lparr>year = 2021, month = 8, day = 18, hour = 9, minute = 23, second = 29\<rparr> \<and> int_of_digits S = second 
          \<lparr>year = 2021, month = 8, day = 18, hour = 9, minute = 23, second = 29\<rparr>
      \<and> (classify (replicate 1536 CHR ''x'')
            \<lparr>returncode = 0, stdout = ''ERROR: Only .ags files are accepted as input'',
             stderr = []\<rparr> None
          = Inr (True, Some ''ERROR: Only .ags files are accepted as input'') \<longrightarrow>
           validate [''tmp'', ''example1.xlsx''] (replicate 1536 CHR ''x'') 
          \<lparr>year = 2021, month = 8, day = 18, hour = 9, minute = 23, second = 29\<rparr>
             \<lparr>returncode = 0, stdout = ''ERROR: Only .ags files are accepted as input'',
              stderr = []\<rparr> None =
             Inr (Some (RESPONSE_TEMPLATE (path_name [''tmp'', ''example1.xlsx''])
                          (py_truediv_1024 (length (replicate 1536 CHR ''x''))) (strftime 
          \<lparr>year = 2021, month = 8, day = 18, hour = 9, minute = 23, second = 29\<rparr>)
                          ''ERROR: Only .ags files are accepted as input''))))"
    by (rule report_layout [OF d])
qed

text \<open>The same report, written out: 1536 bytes are shown as 2 kB.\<close>

lemma report_example:
  "validate [''tmp'', ''example1.xlsx''] (replicate 1536 CHR ''x'')
     \<lparr>year = 2021, month = 8, day = 18, hour = 9, minute = 23, second = 29\<rparr>
     \<lparr>returncode = 0, stdout = ''ERROR: Only .ags files are accepted as input'', stderr = []\<rparr>
     None
   = Inr (Some (''File Name: '' @ [TAB] @ '' example1.xlsx'' @ [LF]
        @ ''File Size: '' @ [TAB] @ '' 2 kB'' @ [LF]
        @ ''Time (UTC): '' @ [TAB] @ '' 2021-08-18 09:23:29'' @ [LF] @ [LF]
        @ ''ERROR: Only .ags files are accepted as input''))"
proof -
  have t: "strftime \<lparr>year = 2021, month = 8, day = 18, hour = 9, minute = 23, second = 29\<rparr> = ''2021-08-18 09:23:29''"
    by code_simp
  have "format_0f (py_truediv_1024 1536) =
     str_of_nat (let b = float_of_nat 1536
                 in if b mod 1024 < 512 then b div 1024
                    else if 512 < b mod 1024 then b div 1024 + 1
                    else if even (b div 1024) then b div 1024 else b div 1024 + 1)"
    by (rule format_0f_py_truediv_1024)
  also have "\<dots> = ''2''" by code_simp
  finally have k: "format_0f (py_truediv_1024 1536) = ''2''" .
  have s: "startswith ''ERROR: Only .ags files are accepted as input'' ''ERROR: ''"
    by code_simp
  show ?thesis
    by (simp add: validate_def classify_def s t k RESPONSE_TEMPLATE_def path_name_def)
qed

text \<open>
  Claim C9.  For one file name, file size and message, the reports made at two instants
  are the same text before the timestamp and the same text after it; for readings of the clock
  with a year from 1000 to 9999 the two timestamps have the same length, 19, so the reports
  agree at every position outside the timestamp.
\<close>

theorem reports_differ_in_timestamp_only:
  assumes "datetime_ok t1" and "datetime_ok t2"
  shows "\<exists>pre post.
      pre = ''File Name: '' @ [TAB] @ '' '' @ name @ [LF]
            @ ''File Size: '' @ [TAB] @ '' '' @ format_0f filesize @ '' kB'' @ [LF]
            @ ''Time (UTC): '' @ [TAB] @ '' ''
      \<and> post = [LF, LF] @ message
      \<and> RESPONSE_TEMPLATE name filesize (strftime t1) message = pre @ strftime t1 @ post
      \<and> RESPONSE_TEMPLATE name filesize (strftime t2) message = pre @ strftime t2 @ post
      \<and> length (strftime t1) = 19 \<and> length (strftime t2) = 19
      \<and> (\<forall>i. i < length pre \<or> length pre + 19 \<le> i \<longrightarrow>
            RESPONSE_TEMPLATE name filesize (strftime t1) message ! i =
            RESPONSE_TEMPLATE name filesize (strftime t2) message ! i)"
proof -
  let ?pre = "''File Name: '' @ [TAB] @ '' '' @ name @ [LF]
            @ ''File Size: '' @ [TAB] @ '' '' @ format_0f filesize @ '' kB'' @ [LF]
            @ ''Time (UTC): '' @ [TAB] @ '' ''"
  let ?post = "[LF, LF] @ message"
  have r: "RESPONSE_TEMPLATE name filesize ts message = ?pre @ ts @ ?post" for ts
    by (simp add: RESPONSE_TEMPLATE_def)
  have l1: "length (strftime t1) = 19" and l2: "length (strftime t2) = 19"
    using assms by (simp_all add: length_strftime)
  have same: "(?pre @ strftime t1 @ ?post) ! i = (?pre @ strftime t2 @ ?post) ! i"
    if "i < length ?pre \<or> length ?pre + 19 \<le> i" for i
  proof (cases "i < length ?pre")
    case True
    then show ?thesis by (simp only: nth_append if_True)
  next
    case False
    with that have "length ?pre + 19 \<le> i" by blast
    then have "\<not> i < length ?pre" "\<not> i - length ?pre < 19" by linarith+
    then show ?thesis by (simp only: nth_append l1 l2 if_False)
  qed
  show ?thesis
    apply (rule exI [of _ ?pre])
    apply (rule exI [of _ ?post])
    apply (intro conjI allI impI)
    subgoal by (rule refl)
    subgoal by (rule refl)
    subgoal by (rule r)
    subgoal by (rule r)
    subgoal by (rule l1)
    subgoal by (rule l2)
    subgoal for i unfolding r by (rule same)
    done
qed

theorem reports_differ_in_timestamp_only_witness:
  "datetime_ok \<lparr>year = 2021, month = 8, day = 18, hour = 9, minute = 23, second = 29\<rparr>
   \<and> datetime_ok \<lparr>year = 2026, month = 11, day = 3, hour = 0, minute = 0, second = 1\<rparr>
   \<and> (\<exists>pre post.
      RESPONSE_TEMPLATE ''example1.ags'' (5 / 2) (strftime \<lparr>year = 2021, month = 8, day = 18, hour = 9, minute = 23, second = 29\<rparr>) ''2 error(s) found in file!''
        = pre @ ''2021-08-18 09:23:29'' @ post
      \<and> RESPONSE_TEMPLATE ''example1.ags'' (5 / 2)
          (strftime \<lparr>year = 2026, month = 11, day = 3, hour = 0, minute = 0, second = 1\<rparr>)
          ''2 error(s) found in file!''
        = pre @ ''2026-11-03 00:00:01'' @ post)"
proof -
  let ?t2 = "\<lparr>year = 2026, month = 11, day = 3, hour = 0, minute = 0, second = 1\<rparr>"
  have d1: "datetime_ok \<lparr>year = 2021, month = 8, day = 18, hour = 9, minute = 23, second = 29\<rparr>"
    by (simp add: datetime_ok_def)
  have d2: "datetime_ok ?t2" by (simp add: datetime_ok_def)
  have s1: "strftime \<lparr>year = 2021, month = 8, day = 18, hour = 9, minute = 23, second = 29\<rparr> = ''2021-08-18 09:23:29''"
    by code_simp
  have s2: "strftime ?t2 = ''2026-11-03 00:00:01''" by code_simp
  from reports_differ_in_timestamp_only [OF d1 d2, where name = "''example1.ags''"
      and filesize = "5 / 2" and message = "''2 error(s) found in file!''", unfolded s1 s2]
  obtain pre post where
    "RESPONSE_TEMPLATE ''example1.ags'' (5 / 2) ''2021-08-18 09:23:29''
        ''2 error(s) found in file!'' = pre @ ''2021-08-18 09:23:29'' @ post"
    "RESPONSE_TEMPLATE ''example1.ags'' (5 / 2) ''2026-11-03 00:00:01''
        ''2 error(s) found in file!'' = pre @ ''2026-11-03 00:00:01'' @ post"
    by blast
  with d1 d2 show ?thesis unfolding s1 s2 by blast
qed

section \<open>The converter\<close>

text \<open>
  Claim C4.  A non-zero exit code gives the message \<open>ERROR: \<close> and stderr, removes the
  converted file if it exists and returns no path.  Otherwise a stdout that begins with
  \<open>ERROR: \<close> gives the message stdout, the same removal and no path.  Otherwise the message is
  \<open>SUCCESS: \<close>, the input name, \<open> converted to \<close> and the output name; the path returned
  is the results directory with the input's stem and the other extension (\<open>.ags\<close> for an
  \<open>.xlsx\<close> input, \<open>.xlsx\<close> for any other), and no file is removed.  In each branch the
  report is the template filled with the message.
\<close>

theorem convert_branches:
  "(returncode result \<noteq> 0 \<longrightarrow>
      convert filename st_size results_dir now result files =
        ((None, RESPONSE_TEMPLATE (path_name filename) (py_truediv_1024 st_size) (strftime now)
                  (''ERROR: '' @ stderr result)),
         files - {joinpath results_dir (stem filename @ new_extension filename)}))
   \<and> (returncode result = 0 \<and> startswith (stdout result) ''ERROR: '' \<longrightarrow>
      convert filename st_size results_dir now result files =
        ((None, RESPONSE_TEMPLATE (path_name filename) (py_truediv_1024 st_size) (strftime now)
                  (stdout result)),
         files - {joinpath results_dir (stem filename @ new_extension filename)}))
   \<and> (returncode result = 0 \<and> \<not> startswith (stdout result) ''ERROR: '' \<longrightarrow>
      convert filename st_size results_dir now result files =
        ((Some (joinpath results_dir (stem filename @ new_extension filename)),
          RESPONSE_TEMPLATE (path_name filename) (py_truediv_1024 st_size) (strftime now)
            (''SUCCESS: '' @ path_name filename @ '' converted to ''
               @ stem filename @ new_extension filename)),
         files))
   \<and> (suffix_of filename = ''.xlsx'' \<longrightarrow> new_extension filename = ''.ags'')
   \<and> (suffix_of filename \<noteq> ''.xlsx'' \<longrightarrow> new_extension filename = ''.xlsx'')"
  by (simp add: convert_def unlink_def joinpath_def path_name_def new_extension_def)

theorem convert_branches_witness:
  "fst (convert [''tmp'', ''example1.ags''] 2560 [''results'']
         \<lparr>year = 2021, month = 8, day = 18, hour = 9, minute = 23, second = 29\<rparr>
         \<lparr>returncode = 0, stdout = [], stderr = []\<rparr>
         {[''results'', ''example1.xlsx'']})
     = (Some [''results'', ''example1.xlsx''],
        ''File Name: '' @ [TAB] @ '' example1.ags'' @ [LF]
        @ ''File Size: '' @ [TAB] @ '' 2 kB'' @ [LF]
        @ ''Time (UTC): '' @ [TAB] @ '' 2021-08-18 09:23:29'' @ [LF] @ [LF]
        @ ''SUCCESS: example1.ags converted to example1.xlsx'')
   \<and> snd (convert [''tmp'', ''example1.ags''] 2560 [''results'']
         \<lparr>year = 2021, month = 8, day = 18, hour = 9, minute = 23, second = 29\<rparr>
         \<lparr>returncode = 0, stdout = [], stderr = []\<rparr>
         {[''results'', ''example1.xlsx'']})
     = {[''results'', ''example1.xlsx'']}
   \<and> fst (fst (convert [''tmp'', ''example1.xlsx''] 2560 [''results'']
         \<lparr>year = 2021, month = 8, day = 18, hour = 9, minute = 23, second = 29\<rparr>
         \<lparr>returncode = 1, stdout = [], stderr = ''Traceback''\<rparr>
         {[''results'', ''example1.ags'']})) = None
   \<and> snd (convert [''tmp'', ''example1.xlsx''] 2560 [''results'']
         \<lparr>year = 2021, month = 8, day = 18, hour = 9, minute = 23, second = 29\<rparr>
         \<lparr>returncode = 1, stdout = [], stderr = ''Traceback''\<rparr>
         {[''results'', ''example1.ags'']}) = {}
   \<and> convert [''tmp'', ''example1.txt''] 2560 [''results'']
         \<lparr>year = 2021, month = 8, day = 18, hour = 9, minute = 23, second = 29\<rparr>
         \<lparr>returncode = 0, stdout = ''ERROR: not an AGS file'', stderr = []\<rparr>
         {}
     = ((None, ''File Name: '' @ [TAB] @ '' example1.txt'' @ [LF]
        @ ''File Size: '' @ [TAB] @ '' 2 kB'' @ [LF]
        @ ''Time (UTC): '' @ [TAB] @ '' 2021-08-18 09:23:29'' @ [LF] @ [LF]
        @ ''ERROR: not an AGS file''), {})"
proof -
  let ?now = "\<lparr>year = 2021, month = 8, day = 18, hour = 9, minute = 23, second = 29\<rparr>"
  have t: "strftime ?now = ''2021-08-18 09:23:29''" by code_simp
  have "format_0f (py_truediv_1024 2560) =
     str_of_nat (let b = float_of_nat 2560
                 in if b mod 1024 < 512 then b div 1024
                    else if 512 < b mod 1024 then b div 1024 + 1
                    else if even (b div 1024) then b div 1024 else b div 1024 + 1)"
    by (rule format_0f_py_truediv_1024)
  also have "\<dots> = ''2''" by code_simp
  finally have k: "format_0f (py_truediv_1024 2560) = ''2''" .
  have s1: "stem [''tmp'', ''example1.ags''] = ''example1''" by code_simp
  have s2: "stem [''tmp'', ''example1.xlsx''] = ''example1''" by code_simp
  have s3: "stem [''tmp'', ''example1.txt''] = ''example1''" by code_simp
  have e1: "new_extension [''tmp'', ''example1.ags''] = ''.xlsx''" by code_simp
  have e2: "new_extension [''tmp'', ''example1.xlsx''] = ''.ags''" by code_simp
  have e3: "new_extension [''tmp'', ''example1.txt''] = ''.xlsx''" by code_simp
  have a: "\<not> startswith [] ''ERROR: ''" by code_simp
  have b: "startswith ''ERROR: not an AGS file'' ''ERROR: ''" by code_simp
  note c = convert_branches [where st_size = 2560 and results_dir = "[''results'']" and now = ?now]
  have 1: "convert [''tmp'', ''example1.ags''] 2560 [''results''] ?now
         \<lparr>returncode = 0, stdout = [], stderr = []\<rparr> {[''results'', ''example1.xlsx'']}
     = ((Some [''results'', ''example1.xlsx''],
        ''File Name: '' @ [TAB] @ '' example1.ags'' @ [LF]
        @ ''File Size: '' @ [TAB] @ '' 2 kB'' @ [LF]
        @ ''Time (UTC): '' @ [TAB] @ '' 2021-08-18 09:23:29'' @ [LF] @ [LF]
        @ ''SUCCESS: example1.ags converted to example1.xlsx''),
        {[''results'', ''example1.xlsx'']})"
    using c [where filename = "[''tmp'', ''example1.ags'']"
        and result = "\<lparr>returncode = 0, stdout = [], stderr = []\<rparr>"
        and files = "{[''results'', ''example1.xlsx'']}"] a
    by (simp add: t k s1 e1 RESPONSE_TEMPLATE_def path_name_def joinpath_def)
  have 2: "convert [''tmp'', ''example1.xlsx''] 2560 [''results''] ?now
         \<lparr>returncode = 1, stdout = [], stderr = ''Traceback''\<rparr> {[''results'', ''example1.ags'']}
     = ((None, RESPONSE_TEMPLATE ''example1.xlsx'' (py_truediv_1024 2560) (strftime ?now)
                 ''ERROR: Traceback''), {})"
    using c [where filename = "[''tmp'', ''example1.xlsx'']"
        and result = "\<lparr>returncode = 1, stdout = [], stderr = ''Traceback''\<rparr>"
        and files = "{[''results'', ''example1.ags'']}"]
    by (simp add: s2 e2 path_name_def joinpath_def)
  have 3: "convert [''tmp'', ''example1.txt''] 2560 [''results''] ?now
         \<lparr>returncode = 0, stdout = ''ERROR: not an AGS file'', stderr = []\<rparr> {}
     = ((None, ''File Name: '' @ [TAB] @ '' example1.txt'' @ [LF]
        @ ''File Size: '' @ [TAB] @ '' 2 kB'' @ [LF]
        @ ''Time (UTC): '' @ [TAB] @ '' 2021-08-18 09:23:29'' @ [LF] @ [LF]
        @ ''ERROR: not an AGS file''), {})"
    using c [where filename = "[''tmp'', ''example1.txt'']"
        and result = "\<lparr>returncode = 0, stdout = ''ERROR: not an AGS file'', stderr = []\<rparr>"
        and files = "{}"] b
    by (simp add: t k s3 e3 RESPONSE_TEMPLATE_def path_name_def joinpath_def)
  from 1 2 3 show ?thesis by simp
qed

end
